theory Spec2Isabelle
  imports Main
begin

text \<open>
  A model of \<open>src/codeGenerator.ts\<close> and of the component registry
  \<open>src/components/lvglComponents.ts\<close> of the LVGL builder: the emitter
  (\<open>generateCode\<close>, \<open>generateComponentCode\<close>), the parser (\<open>parseXmlToNodes\<close>,
  \<open>parseChildren\<close>) and the serializer (\<open>nodesToXml\<close>, \<open>nodeToXml\<close>), followed by the
  properties of the specification that hold of them and the inputs on which others fail.

  What the code takes from its environment is a parameter of the model: the XML library
  (\<open>xml\<close>), the clock and the random source behind a synthesized id (\<open>fresh\<close>), the
  members every object literal inherits (\<open>proto\<close>), and the module variable
  \<open>_componentCounter\<close>, which is passed in and returned.
\<close>

section \<open>Strings and JavaScript primitives used by the code generator\<close>

text \<open>
  Strings are \<open>char list\<close>; the double quote, the backslash and the line feed are
  written through their codes.
\<close>

abbreviation dq :: char where "dq \<equiv> CHR 0x22"
abbreviation bs :: char where "bs \<equiv> CHR 0x5C"
abbreviation nl :: char where "nl \<equiv> CHR 0x0A"

text \<open>\<open>s.startsWith(p)\<close> and \<open>s.includes(p)\<close>.\<close>

fun startsWith :: "string \<Rightarrow> string \<Rightarrow> bool" where
  "startsWith s [] = True"
| "startsWith [] (p # ps) = False"
| "startsWith (c # cs) (p # ps) = (c = p \<and> startsWith cs ps)"

fun js_includes :: "string \<Rightarrow> string \<Rightarrow> bool" where
  "js_includes [] p = startsWith [] p"
| "js_includes (c # cs) p = (if startsWith (c # cs) p then True else js_includes cs p)"

text \<open>
  \<open>s.replace(pat, rep)\<close> with a string pattern: only the first occurrence is replaced.
\<close>

fun replaceFirst :: "string \<Rightarrow> string \<Rightarrow> string \<Rightarrow> string" where
  "replaceFirst pat rep [] = (if pat = [] then rep else [])"
| "replaceFirst pat rep (c # cs) =
     (if startsWith (c # cs) pat then rep @ drop (length pat) (c # cs)
      else c # replaceFirst pat rep cs)"

text \<open>
  \<open>s.replace(/c/g, rep)\<close> for a one-character pattern: every occurrence is replaced.
\<close>

definition replaceAllChar :: "char \<Rightarrow> string \<Rightarrow> string \<Rightarrow> string" where
  "replaceAllChar c rep s = concat (map (\<lambda>x. if x = c then rep else [x]) s)"

text \<open>
  \<open>toUpperCase\<close> and \<open>toLowerCase\<close> on the ASCII letters; every other character is
  left as it is (the editor passes a screen name made of \<open>[a-zA-Z0-9_]\<close> only).
\<close>

definition lowerLetters :: string where "lowerLetters = ''abcdefghijklmnopqrstuvwxyz''"
definition upperLetters :: string where "upperLetters = ''ABCDEFGHIJKLMNOPQRSTUVWXYZ''"

definition toUpperCase :: "string \<Rightarrow> string" where
  "toUpperCase s =
     map (\<lambda>c. case map_of (zip lowerLetters upperLetters) c of Some u \<Rightarrow> u | None \<Rightarrow> c) s"

definition toLowerCase :: "string \<Rightarrow> string" where
  "toLowerCase s =
     map (\<lambda>c. case map_of (zip upperLetters lowerLetters) c of Some l \<Rightarrow> l | None \<Rightarrow> c) s"

text \<open>
  Decimal rendering of a counter or of an integral number, as \<open>String(n)\<close> and a
  template literal give it.
\<close>

definition digitChar :: "nat \<Rightarrow> char" where
  "digitChar d = ''0123456789'' ! d"

function natToString :: "nat \<Rightarrow> string" where
  "natToString n =
     (if n < 10 then [digitChar n] else natToString (n div 10) @ [digitChar (n mod 10)])"
  by pat_completeness auto
termination
  by (relation "measure id") auto

declare natToString.simps [simp del]

definition numberToString :: "int \<Rightarrow> string" where
  "numberToString i = (if i < 0 then CHR ''-'' # natToString (nat (- i)) else natToString (nat i))"

section \<open>The node model\<close>

text \<open>
  A property value is \<open>string | number | boolean\<close>. Numbers are the integral ones,
  whose rendering is the decimal numeral.
\<close>

datatype PropValue = PStr string | PNum int | PBool bool

text \<open>
  \<open>LvglNode\<close>: \<open>properties\<close> is the record of the source, kept as the list of its
  entries in \<open>Object.entries\<close> order.
\<close>

datatype LvglNode =
  LvglNode (node_id: string) (node_type: string) (node_name: string)
           (properties: "(string \<times> PropValue) list") (children: "LvglNode list")

record GeneratedCode =
  headerContent :: string
  sourceContent :: string

text \<open>\<open>`${value}`\<close> and \<open>String(value)\<close> on a property value.\<close>

fun valueToString :: "PropValue \<Rightarrow> string" where
  "valueToString (PStr s) = s"
| "valueToString (PNum n) = numberToString n"
| "valueToString (PBool b) = (if b then ''true'' else ''false'')"

text \<open>Truthiness of a property value, as \<open>&& value\<close> tests it.\<close>

fun truthy :: "PropValue \<Rightarrow> bool" where
  "truthy (PStr s) = (s \<noteq> [])"
| "truthy (PNum n) = (n \<noteq> 0)"
| "truthy (PBool b) = b"

section \<open>The component registry\<close>

text \<open>
  \<open>LvglComponent\<close> with the fields the code generator reads or that classify the
  component; \<open>icon\<close> and the property declarations are not read by it.
\<close>

record LvglComponent =
  ctype :: string
  displayName :: string
  category :: string
  canHaveChildren :: bool
  createCode :: string

definition mkComponent :: "string \<Rightarrow> string \<Rightarrow> string \<Rightarrow> bool \<Rightarrow> string \<Rightarrow> LvglComponent" where
  "mkComponent t d c h k =
     \<lparr>ctype = t, displayName = d, category = c, canHaveChildren = h, createCode = k\<rparr>"

definition lvglComponents :: "LvglComponent list" where
  "lvglComponents =
   [mkComponent ''lv_obj'' ''Object'' ''basic'' True ''lv_obj_create'',
    mkComponent ''lv_label'' ''Label'' ''display'' False ''lv_label_create'',
    mkComponent ''lv_btn'' ''Button'' ''input'' True ''lv_btn_create'',
    mkComponent ''lv_btnmatrix'' ''Button Matrix'' ''input'' False ''lv_btnmatrix_create'',
    mkComponent ''lv_img'' ''Image'' ''display'' False ''lv_img_create'',
    mkComponent ''lv_line'' ''Line'' ''display'' False ''lv_line_create'',
    mkComponent ''lv_arc'' ''Arc'' ''display'' False ''lv_arc_create'',
    mkComponent ''lv_bar'' ''Bar'' ''display'' False ''lv_bar_create'',
    mkComponent ''lv_slider'' ''Slider'' ''input'' False ''lv_slider_create'',
    mkComponent ''lv_switch'' ''Switch'' ''input'' False ''lv_switch_create'',
    mkComponent ''lv_checkbox'' ''Checkbox'' ''input'' False ''lv_checkbox_create'',
    mkComponent ''lv_dropdown'' ''Dropdown'' ''input'' False ''lv_dropdown_create'',
    mkComponent ''lv_roller'' ''Roller'' ''input'' False ''lv_roller_create'',
    mkComponent ''lv_textarea'' ''Textarea'' ''input'' False ''lv_textarea_create'',
    mkComponent ''lv_table'' ''Table'' ''display'' False ''lv_table_create'',
    mkComponent ''lv_chart'' ''Chart'' ''display'' False ''lv_chart_create'',
    mkComponent ''lv_calendar'' ''Calendar'' ''extra'' False ''lv_calendar_create'',
    mkComponent ''lv_keyboard'' ''Keyboard'' ''extra'' False ''lv_keyboard_create'',
    mkComponent ''lv_list'' ''List'' ''container'' True ''lv_list_create'',
    mkComponent ''lv_msgbox'' ''Message Box'' ''extra'' False ''lv_msgbox_create'',
    mkComponent ''lv_spinbox'' ''Spinbox'' ''input'' False ''lv_spinbox_create'',
    mkComponent ''lv_spinner'' ''Spinner'' ''display'' False ''lv_spinner_create'',
    mkComponent ''lv_tabview'' ''Tabview'' ''container'' True ''lv_tabview_create'',
    mkComponent ''lv_tileview'' ''Tileview'' ''container'' True ''lv_tileview_create'',
    mkComponent ''lv_win'' ''Window'' ''container'' True ''lv_win_create'',
    mkComponent ''lv_animimg'' ''Animation Image'' ''display'' False ''lv_animimg_create'',
    mkComponent ''lv_canvas'' ''Canvas'' ''display'' False ''lv_canvas_create'',
    mkComponent ''lv_imgbtn'' ''Image Button'' ''input'' False ''lv_imgbtn_create'',
    mkComponent ''lv_led'' ''LED'' ''display'' False ''lv_led_create'',
    mkComponent ''lv_menu'' ''Menu'' ''container'' True ''lv_menu_create'',
    mkComponent ''lv_scale'' ''Scale'' ''display'' False ''lv_scale_create'',
    mkComponent ''lv_spangroup'' ''Span Group'' ''display'' False ''lv_spangroup_create'',
    mkComponent ''lv_colorwheel'' ''Color Wheel'' ''input'' False ''lv_colorwheel_create'',
    mkComponent ''lv_meter'' ''Meter'' ''display'' False ''lv_meter_create'']"

definition getComponentByType :: "string \<Rightarrow> LvglComponent option" where
  "getComponentByType t = find (\<lambda>c. ctype c = t) lvglComponents"

section \<open>The code emitter\<close>

text \<open>
  The lookup tables of the emitter are object literals, so \<open>table[key]\<close> also finds the
  members every object inherits (\<open>constructor\<close>, \<open>toString\<close>, ...). The parameter
  \<open>proto\<close> gives, for such a member name, the text \<open>String(member)\<close>; it is
  \<open>None\<close> for every other key. An inherited member is a function or an object, hence
  truthy, and its text is not empty.
\<close>

definition tableLookup ::
  "(string \<Rightarrow> string option) \<Rightarrow> (string \<times> string) list \<Rightarrow> string \<Rightarrow> string option" where
  "tableLookup proto tbl k = (case map_of tbl k of Some v \<Rightarrow> Some v | None \<Rightarrow> proto k)"

definition propertyToCode :: "string \<Rightarrow> PropValue \<Rightarrow> string" where
  "propertyToCode propName v =
     (case v of
        PBool b \<Rightarrow> (if b then ''true'' else ''false'')
      | PStr s \<Rightarrow>
          (if js_includes propName ''color'' \<and> startsWith s ''#''
           then ''lv_color_hex(0x'' @ drop 1 s @ '')''
           else [dq] @ replaceAllChar dq [bs, dq] (replaceAllChar bs [bs, bs] s) @ [dq])
      | PNum n \<Rightarrow> numberToString n)"

definition styleMap :: "(string \<times> string) list" where
  "styleMap =
   [(''bg_color'', ''lv_obj_set_style_bg_color''),
    (''bg_opa'', ''lv_obj_set_style_bg_opa''),
    (''border_color'', ''lv_obj_set_style_border_color''),
    (''border_width'', ''lv_obj_set_style_border_width''),
    (''radius'', ''lv_obj_set_style_radius''),
    (''text_color'', ''lv_obj_set_style_text_color''),
    (''line_color'', ''lv_obj_set_style_line_color''),
    (''line_width'', ''lv_obj_set_style_line_width''),
    (''pad_top'', ''lv_obj_set_style_pad_top''),
    (''pad_bottom'', ''lv_obj_set_style_pad_bottom''),
    (''pad_left'', ''lv_obj_set_style_pad_left''),
    (''pad_right'', ''lv_obj_set_style_pad_right''),
    (''pad_row'', ''lv_obj_set_style_pad_row''),
    (''pad_column'', ''lv_obj_set_style_pad_column'')]"

definition getStyleSetter :: "(string \<Rightarrow> string option) \<Rightarrow> string \<Rightarrow> string" where
  "getStyleSetter proto propName =
     (case tableLookup proto styleMap propName of Some t \<Rightarrow> t | None \<Rightarrow> [])"

definition modeMap :: "(string \<times> string) list" where
  "modeMap =
   [(''wrap'', ''LV_LABEL_LONG_WRAP''),
    (''dot'', ''LV_LABEL_LONG_DOT''),
    (''scroll'', ''LV_LABEL_LONG_SCROLL''),
    (''scroll_circular'', ''LV_LABEL_LONG_SCROLL_CIRCULAR''),
    (''clip'', ''LV_LABEL_LONG_CLIP'')]"

definition setterMap :: "(string \<times> string) list" where
  "setterMap =
   [(''lv_arc'', ''lv_arc_set_value''),
    (''lv_bar'', ''lv_bar_set_value''),
    (''lv_slider'', ''lv_slider_set_value'')]"

definition flowMap :: "(string \<times> string) list" where
  "flowMap =
   [(''row'', ''LV_FLEX_FLOW_ROW''),
    (''column'', ''LV_FLEX_FLOW_COLUMN''),
    (''row_wrap'', ''LV_FLEX_FLOW_ROW_WRAP''),
    (''row_reverse'', ''LV_FLEX_FLOW_ROW_REVERSE''),
    (''column_reverse'', ''LV_FLEX_FLOW_COLUMN_REVERSE''),
    (''column_wrap'', ''LV_FLEX_FLOW_COLUMN_WRAP'')]"

text \<open>
  The \<open>switch (node.type)\<close> of \<open>generateComponentCode\<close>: the text appended for one
  property that is neither a geometry nor a style property.
\<close>

definition componentSpecific ::
  "(string \<Rightarrow> string option) \<Rightarrow> string \<Rightarrow> string \<Rightarrow> string \<Rightarrow> string \<Rightarrow> PropValue \<Rightarrow> string" where
  "componentSpecific proto indent varName ntype propName v =
     (if ntype = ''lv_label'' then
        (if propName = ''text'' then
           indent @ ''lv_label_set_text('' @ varName @ '', '' @ propertyToCode propName v @ '');'' @ [nl]
         else if propName = ''long_mode'' then
           indent @ ''lv_label_set_long_mode('' @ varName @ '', ''
             @ (case tableLookup proto modeMap (valueToString v) of
                  Some t \<Rightarrow> t | None \<Rightarrow> ''LV_LABEL_LONG_WRAP'')
             @ '');'' @ [nl]
         else [])
      else if ntype = ''lv_btn'' then []
      else if ntype = ''lv_arc'' \<or> ntype = ''lv_bar'' \<or> ntype = ''lv_slider'' then
        (if propName = ''value'' then
           indent @ (case map_of setterMap ntype of Some t \<Rightarrow> t | None \<Rightarrow> ''undefined'')
             @ ''('' @ varName @ '', '' @ valueToString v @ '', LV_ANIM_OFF);'' @ [nl]
         else [])
      else if ntype = ''lv_switch'' \<or> ntype = ''lv_checkbox'' then
        (if propName = ''checked'' \<and> v = PBool True then
           indent @ ''lv_obj_add_state('' @ varName @ '', LV_STATE_CHECKED);'' @ [nl]
         else [])
        @ (if propName = ''text'' \<and> ntype = ''lv_checkbox'' then
             indent @ ''lv_checkbox_set_text('' @ varName @ '', '' @ propertyToCode propName v
               @ '');'' @ [nl]
           else [])
      else if ntype = ''lv_dropdown'' \<or> ntype = ''lv_roller'' then
        (if propName = ''options'' then
           indent
             @ (if ntype = ''lv_dropdown'' then ''lv_dropdown_set_options''
                else ''lv_roller_set_options'')
             @ ''('' @ varName @ '', '' @ propertyToCode propName v
             @ (if ntype = ''lv_roller'' then '', LV_ROLLER_MODE_NORMAL'' else [])
             @ '');'' @ [nl]
         else if propName = ''selected'' then
           indent
             @ (if ntype = ''lv_dropdown'' then ''lv_dropdown_set_selected''
                else ''lv_roller_set_selected'')
             @ ''('' @ varName @ '', '' @ valueToString v @ '', LV_ANIM_OFF);'' @ [nl]
         else [])
      else if ntype = ''lv_textarea'' then
        (if propName = ''text'' then
           indent @ ''lv_textarea_set_text('' @ varName @ '', '' @ propertyToCode propName v
             @ '');'' @ [nl]
         else if propName = ''placeholder'' then
           indent @ ''lv_textarea_set_placeholder_text('' @ varName @ '', ''
             @ propertyToCode propName v @ '');'' @ [nl]
         else if propName = ''one_line'' \<and> v = PBool True then
           indent @ ''lv_textarea_set_one_line('' @ varName @ '', true);'' @ [nl]
         else if propName = ''password_mode'' \<and> v = PBool True then
           indent @ ''lv_textarea_set_password_mode('' @ varName @ '', true);'' @ [nl]
         else [])
      else if ntype = ''lv_img'' then
        (if propName = ''src'' \<and> truthy v then
           indent @ ''lv_img_set_src('' @ varName @ '', &'' @ valueToString v @ '');'' @ [nl]
         else if propName = ''zoom'' then
           indent @ ''lv_img_set_zoom('' @ varName @ '', '' @ valueToString v @ '');'' @ [nl]
         else if propName = ''angle'' then
           indent @ ''lv_img_set_angle('' @ varName @ '', '' @ valueToString v @ '');'' @ [nl]
         else [])
      else if ntype = ''lv_spinner'' then []
      else
        (if propName = ''layout'' then
           (if v = PStr ''flex'' then
              indent @ ''lv_obj_set_layout('' @ varName @ '', LV_LAYOUT_FLEX);'' @ [nl]
            else if v = PStr ''grid'' then
              indent @ ''lv_obj_set_layout('' @ varName @ '', LV_LAYOUT_GRID);'' @ [nl]
            else [])
         else if propName = ''flex_flow'' then
           indent @ ''lv_obj_set_flex_flow('' @ varName @ '', ''
             @ (case tableLookup proto flowMap (valueToString v) of
                  Some t \<Rightarrow> t | None \<Rightarrow> ''LV_FLEX_FLOW_ROW'')
             @ '');'' @ [nl]
         else []))"

text \<open>
  The body of the loop over \<open>Object.entries(node.properties)\<close>: the text appended
  for one property.
\<close>

definition propertyStatement ::
  "(string \<Rightarrow> string option) \<Rightarrow> string \<Rightarrow> string \<Rightarrow> string \<Rightarrow> string \<times> PropValue \<Rightarrow> string" where
  "propertyStatement proto indent varName ntype entry =
     (let propName = fst entry; v = snd entry in
      if propName \<in> set [''x'', ''y'', ''width'', ''height'', ''name''] then []
      else if getStyleSetter proto propName \<noteq> [] then
        (if js_includes propName ''color'' then
           indent @ getStyleSetter proto propName @ ''('' @ varName @ '', ''
             @ propertyToCode propName v @ '', LV_PART_MAIN);'' @ [nl]
         else
           indent @ getStyleSetter proto propName @ ''('' @ varName @ '', ''
             @ valueToString v @ '', LV_PART_MAIN);'' @ [nl])
      else componentSpecific proto indent varName ntype propName v)"

text \<open>\<open>`${node.properties[k] ?? d}`\<close>, with \<open>d\<close> already rendered.\<close>

definition geometryArg :: "(string \<times> PropValue) list \<Rightarrow> string \<Rightarrow> string \<Rightarrow> string" where
  "geometryArg props k d = (case map_of props k of None \<Rightarrow> d | Some v \<Rightarrow> valueToString v)"

text \<open>
  \<open>node.name || `${node.type.replace('lv_', '')}_${++_componentCounter}`\<close>: the
  variable name and the value of the module variable \<open>_componentCounter\<close> afterwards.
  The increment runs only when \<open>node.name\<close> is empty.
\<close>

definition variableName :: "string \<Rightarrow> string \<Rightarrow> nat \<Rightarrow> string \<times> nat" where
  "variableName t n counter =
     (if n \<noteq> [] then (n, counter)
      else (replaceFirst ''lv_'' [] t @ ''_'' @ natToString (counter + 1), counter + 1))"

text \<open>
  \<open>generateComponentCode\<close>. The module variable \<open>_componentCounter\<close> is passed in and
  returned. \<open>generateChildren\<close> is the loop
  \<open>for (const child of node.children) code += generateComponentCode(child, ...)\<close>,
  which \<open>generateCode\<close> runs in the same form over the root nodes.
\<close>

fun generateComponentCode ::
  "(string \<Rightarrow> string option) \<Rightarrow> LvglNode \<Rightarrow> string \<Rightarrow> string \<Rightarrow> bool \<Rightarrow> nat \<Rightarrow> string \<times> nat"
and generateChildren ::
  "(string \<Rightarrow> string option) \<Rightarrow> LvglNode list \<Rightarrow> string \<Rightarrow> string \<Rightarrow> bool \<Rightarrow> nat \<Rightarrow> string \<times> nat"
where
  "generateComponentCode proto (LvglNode i t n props cs) parentVar indent generateComments counter =
     (case getComponentByType t of
        None \<Rightarrow> (indent @ ''// Unknown component type: '' @ t @ [nl], counter)
      | Some componentDef \<Rightarrow>
          (let varName = fst (variableName t n counter);
               counter1 = snd (variableName t n counter);
               code =
                 (if generateComments then
                    indent @ ''/* Create '' @ displayName componentDef @ '': '' @ varName
                      @ '' */'' @ [nl]
                  else [])
                 @ indent @ ''lv_obj_t *'' @ varName @ '' = '' @ createCode componentDef
                   @ ''('' @ parentVar @ '');'' @ [nl]
                 @ indent @ ''lv_obj_set_pos('' @ varName @ '', '' @ geometryArg props ''x'' ''0''
                   @ '', '' @ geometryArg props ''y'' ''0'' @ '');'' @ [nl]
                 @ indent @ ''lv_obj_set_size('' @ varName @ '', ''
                   @ geometryArg props ''width'' ''100'' @ '', ''
                   @ geometryArg props ''height'' ''50'' @ '');'' @ [nl]
                 @ concat (map (propertyStatement proto indent varName t) props)
                 @ [nl];
               kids = generateChildren proto cs varName indent generateComments counter1
           in (code @ fst kids, snd kids)))"
| "generateChildren proto [] parentVar indent generateComments counter = ([], counter)"
| "generateChildren proto (child # rest) parentVar indent generateComments counter =
     (let first = generateComponentCode proto child parentVar indent generateComments counter;
          others = generateChildren proto rest parentVar indent generateComments (snd first)
      in (fst first @ fst others, snd others))"

text \<open>
  \<open>generateCode\<close>: takes the value of \<open>_componentCounter\<close> before the call and returns
  the generated pair with the value after it.
\<close>

definition headerText :: "string \<Rightarrow> bool \<Rightarrow> string" where
  "headerText screenName generateComments =
     (let upperName = toUpperCase screenName; lowerName = toLowerCase screenName in
      (if generateComments then
         ''/**'' @ [nl]
         @ '' * @file '' @ lowerName @ ''.h'' @ [nl]
         @ '' * @brief '' @ screenName @ '' screen header'' @ [nl]
         @ '' * @note Auto-generated by LVGL Builder'' @ [nl]
         @ '' */'' @ [nl] @ [nl]
       else [])
      @ ''#ifndef '' @ upperName @ ''_H'' @ [nl]
      @ ''#define '' @ upperName @ ''_H'' @ [nl] @ [nl]
      @ (if generateComments then
           ''/*********************'' @ [nl]
           @ '' *      INCLUDES'' @ [nl]
           @ '' *********************/'' @ [nl]
         else [])
      @ ''#include '' @ [dq] @ ''lvgl.h'' @ [dq] @ [nl] @ [nl]
      @ (if generateComments then
           ''/*********************'' @ [nl]
           @ '' *      DEFINES'' @ [nl]
           @ '' *********************/'' @ [nl] @ [nl]
           @ ''/**********************'' @ [nl]
           @ '' * GLOBAL PROTOTYPES'' @ [nl]
           @ '' **********************/'' @ [nl]
         else [])
      @ ''void '' @ lowerName @ ''_create(lv_obj_t *parent);'' @ [nl] @ [nl]
      @ ''#endif /* '' @ upperName @ ''_H */'' @ [nl])"

definition sourcePrologue :: "string \<Rightarrow> bool \<Rightarrow> string" where
  "sourcePrologue screenName generateComments =
     (let lowerName = toLowerCase screenName in
      (if generateComments then
         ''/**'' @ [nl]
         @ '' * @file '' @ lowerName @ ''.c'' @ [nl]
         @ '' * @brief '' @ screenName @ '' screen implementation'' @ [nl]
         @ '' * @note Auto-generated by LVGL Builder'' @ [nl]
         @ '' */'' @ [nl] @ [nl]
         @ ''/*********************'' @ [nl]
         @ '' *      INCLUDES'' @ [nl]
         @ '' *********************/'' @ [nl]
       else [])
      @ ''#include '' @ [dq] @ lowerName @ ''.h'' @ [dq] @ [nl] @ [nl]
      @ (if generateComments then
           ''/*********************'' @ [nl]
           @ '' *      DEFINES'' @ [nl]
           @ '' *********************/'' @ [nl] @ [nl]
           @ ''/**********************'' @ [nl]
           @ '' *  STATIC VARIABLES'' @ [nl]
           @ '' **********************/'' @ [nl] @ [nl]
           @ ''/**********************'' @ [nl]
           @ '' *  STATIC PROTOTYPES'' @ [nl]
           @ '' **********************/'' @ [nl] @ [nl]
           @ ''/**********************'' @ [nl]
           @ '' * GLOBAL FUNCTIONS'' @ [nl]
           @ '' **********************/'' @ [nl] @ [nl]
           @ ''/**'' @ [nl]
           @ '' * Create the '' @ screenName @ '' screen'' @ [nl]
           @ '' * @param parent pointer to parent object'' @ [nl]
           @ '' */'' @ [nl]
         else [])
      @ ''void '' @ lowerName @ ''_create(lv_obj_t *parent)'' @ [nl]
      @ ''{'' @ [nl])"

definition sourceEpilogue :: "bool \<Rightarrow> string" where
  "sourceEpilogue generateComments =
     ''}'' @ [nl]
     @ (if generateComments then
          [nl] @ ''/**********************'' @ [nl]
          @ '' *  STATIC FUNCTIONS'' @ [nl]
          @ '' **********************/'' @ [nl]
        else [])"

definition generateCode ::
  "(string \<Rightarrow> string option) \<Rightarrow> nat \<Rightarrow> LvglNode list \<Rightarrow> string \<Rightarrow> bool \<Rightarrow> GeneratedCode \<times> nat" where
  "generateCode proto counter rootNodes screenName generateComments =
     (let counter0 = 0;
          body = generateChildren proto rootNodes ''parent'' ''    '' generateComments counter0
      in (\<lparr>headerContent = headerText screenName generateComments,
           sourceContent = sourcePrologue screenName generateComments @ fst body
                             @ sourceEpilogue generateComments\<rparr>,
          snd body))"

section \<open>The document parser\<close>

text \<open>
  \<open>parseXmlToNodes\<close> hands the text to \<open>XMLParser.parse\<close> of the package
  \<open>fast-xml-parser\<close>, which is not part of this repository. The value the library
  returns is a tree of plain objects, arrays, strings, numbers and booleans; an object is
  kept as the list of its entries in \<open>Object.entries\<close> order. The library is a parameter
  \<open>xml\<close> of the model: \<open>xml text\<close> is \<open>Inr\<close> of the value returned, or \<open>Inl\<close>
  of the error thrown.
\<close>

datatype JsValue =
  JBool bool | JNum int | JStr string | JArr "JsValue list" | JObj "(string \<times> JsValue) list"

datatype XmlError = XmlError string

text \<open>\<open>String(v)\<close>; an array is joined with commas.\<close>

fun js_String :: "JsValue \<Rightarrow> string"
and js_join :: "JsValue list \<Rightarrow> string" where
  "js_String (JBool b) = (if b then ''true'' else ''false'')"
| "js_String (JNum n) = numberToString n"
| "js_String (JStr s) = s"
| "js_String (JArr xs) = js_join xs"
| "js_String (JObj kvs) = ''[object Object]''"
| "js_join [] = []"
| "js_join [x] = js_String x"
| "js_join (x # y # ys) = js_String x @ '','' @ js_join (y # ys)"

text \<open>Truthiness, as \<open>||\<close> and \<open>!\<close> test it.\<close>

fun js_truthy :: "JsValue \<Rightarrow> bool" where
  "js_truthy (JBool b) = b"
| "js_truthy (JNum n) = (n \<noteq> 0)"
| "js_truthy (JStr s) = (s \<noteq> [])"
| "js_truthy (JArr xs) = True"
| "js_truthy (JObj kvs) = True"

text \<open>\<open>typeof v === 'object' && v !== null\<close>.\<close>

fun isObject :: "JsValue \<Rightarrow> bool" where
  "isObject (JArr xs) = True"
| "isObject (JObj kvs) = True"
| "isObject v = False"

text \<open>
  \<open>v[k]\<close> for the keys \<open>id\<close>, \<open>name\<close> and \<open>lvgl\<close>, which only an object can
  carry; \<open>None\<close> is \<open>undefined\<close>.
\<close>

fun getProp :: "JsValue \<Rightarrow> string \<Rightarrow> JsValue option" where
  "getProp (JObj kvs) k = map_of kvs k"
| "getProp v k = None"

text \<open>
  \<open>Object.entries(v)\<close>: the entries of an object, the indexed elements of an array, the
  indexed characters of a string, nothing for a number or a boolean.
\<close>

definition indexKeys :: "nat \<Rightarrow> string list" where
  "indexKeys n = map natToString [0..<n]"

fun js_entries :: "JsValue \<Rightarrow> (string \<times> JsValue) list" where
  "js_entries (JObj kvs) = kvs"
| "js_entries (JArr xs) = zip (indexKeys (length xs)) xs"
| "js_entries (JStr s) = zip (indexKeys (length s)) (map (\<lambda>c. JStr [c]) s)"
| "js_entries v = []"

text \<open>\<open>Array.isArray(value) ? value : [value]\<close>.\<close>

definition itemsOf :: "JsValue \<Rightarrow> JsValue list" where
  "itemsOf v = (case v of JArr xs \<Rightarrow> xs | _ \<Rightarrow> [v])"

text \<open>
  \<open>obj[k] = v\<close> on a record kept as its entry list: an existing key keeps its place.
\<close>

fun setProp :: "(string \<times> 'v) list \<Rightarrow> string \<Rightarrow> 'v \<Rightarrow> (string \<times> 'v) list" where
  "setProp [] k v = [(k, v)]"
| "setProp ((k', v') # r) k v = (if k' = k then (k, v) # r else (k', v') # setProp r k v)"

text \<open>
  The cast \<open>propValue as string | number | boolean\<close>: a value that is not an object is
  stored as it is.
\<close>

fun scalarOf :: "JsValue \<Rightarrow> PropValue option" where
  "scalarOf (JBool b) = Some (PBool b)"
| "scalarOf (JNum n) = Some (PNum n)"
| "scalarOf (JStr s) = Some (PStr s)"
| "scalarOf v = None"

text \<open>The loop \<open>// Extract properties\<close> of \<open>parseChildren\<close>.\<close>

fun extractProperties ::
  "(string \<times> JsValue) list \<Rightarrow> (string \<times> PropValue) list \<Rightarrow> (string \<times> PropValue) list" where
  "extractProperties [] acc = acc"
| "extractProperties ((propKey, propValue) # rest) acc =
     (if propKey = ''id'' \<or> propKey = ''name'' then extractProperties rest acc
      else case scalarOf propValue of
             None \<Rightarrow> extractProperties rest acc
           | Some v \<Rightarrow> extractProperties rest (setProp acc propKey v))"

subsection \<open>Termination measure of the recursive descent\<close>

fun objWeight :: "JsValue \<Rightarrow> nat" where
  "objWeight (JArr xs) = Suc (sum_list (map objWeight xs))"
| "objWeight (JObj kvs) = Suc (sum_list (map (\<lambda>kv. objWeight (snd kv)) kvs))"
| "objWeight v = 0"

definition entriesWeight :: "(string \<times> JsValue) list \<Rightarrow> nat" where
  "entriesWeight es = sum_list (map (\<lambda>kv. objWeight (snd kv)) es)"

definition itemsWeight :: "JsValue list \<Rightarrow> nat" where
  "itemsWeight xs = sum_list (map objWeight xs)"

lemma entriesWeight_Nil: "entriesWeight [] = 0"
  by (simp add: entriesWeight_def)

lemma entriesWeight_Cons: "entriesWeight (kv # es) = objWeight (snd kv) + entriesWeight es"
  by (simp add: entriesWeight_def)

lemma itemsWeight_Nil: "itemsWeight [] = 0"
  by (simp add: itemsWeight_def)

lemma itemsWeight_Cons: "itemsWeight (x # xs) = objWeight x + itemsWeight xs"
  by (simp add: itemsWeight_def)

lemma entriesWeight_zip: "entriesWeight (zip ks xs) \<le> itemsWeight xs"
proof (induction xs arbitrary: ks)
  case Nil
  then show ?case by (simp add: entriesWeight_Nil)
next
  case (Cons x xs)
  show ?case
  proof (cases ks)
    case Nil
    then show ?thesis by (simp add: entriesWeight_Nil)
  next
    case (Cons k ks')
    with Cons.IH [of ks'] show ?thesis
      by (simp add: entriesWeight_Cons itemsWeight_Cons)
  qed
qed

lemma entriesWeight_entries: "isObject v \<Longrightarrow> entriesWeight (js_entries v) < objWeight v"
proof (cases v)
  case (JArr xs)
  have "entriesWeight (zip (indexKeys (length xs)) xs) \<le> itemsWeight xs"
    by (rule entriesWeight_zip)
  with JArr show ?thesis by (simp add: itemsWeight_def)
next
  case (JObj kvs)
  then show ?thesis by (simp add: entriesWeight_def)
qed simp_all

lemma itemsWeight_itemsOf: "itemsWeight (itemsOf v) \<le> objWeight v"
  by (cases v) (simp_all add: itemsOf_def itemsWeight_def)

subsection \<open>parseChildren and parseXmlToNodes\<close>

text \<open>
  \<open>parseChildren\<close> with its two loops: \<open>parseEntries\<close> over the entries of the parent,
  \<open>parseItems\<close> over the items of one entry. A missing \<open>id\<close> is synthesized from
  \<open>Date.now()\<close> and \<open>Math.random()\<close>: \<open>fresh k\<close> is the text
  \<open>`${Date.now()}_${Math.random().toString(36).slice(2, 11)}`\<close> of the synthesis number
  \<open>k\<close>, and the number of syntheses so far is passed in and returned. The depth of the
  recursion is the depth of the document; the model puts no bound on it.
\<close>

function parseChildren :: "(nat \<Rightarrow> string) \<Rightarrow> JsValue \<Rightarrow> nat \<Rightarrow> LvglNode list \<times> nat"
and parseEntries ::
  "(nat \<Rightarrow> string) \<Rightarrow> (string \<times> JsValue) list \<Rightarrow> nat \<Rightarrow> LvglNode list \<times> nat"
and parseItems ::
  "(nat \<Rightarrow> string) \<Rightarrow> string \<Rightarrow> JsValue list \<Rightarrow> nat \<Rightarrow> LvglNode list \<times> nat"
where
  "parseChildren fresh parent k = parseEntries fresh (js_entries parent) k"
| "parseEntries fresh [] k = ([], k)"
| "parseEntries fresh ((key, v) # rest) k =
     (if startsWith key ''@'' \<or> key = ''#text'' \<or> key = ''lvgl'' then parseEntries fresh rest k
      else
        (let these = parseItems fresh key (itemsOf v) k;
             others = parseEntries fresh rest (snd these)
         in (fst these @ fst others, snd others)))"
| "parseItems fresh key [] k = ([], k)"
| "parseItems fresh key (item # items) k =
     (if \<not> isObject item then parseItems fresh key items k
      else
        (let idValue = getProp item ''id'';
             synthesized = (case idValue of None \<Rightarrow> True | Some v \<Rightarrow> \<not> js_truthy v);
             k1 = (if synthesized then k + 1 else k);
             kids = parseChildren fresh item k1;
             node = LvglNode
                      (case idValue of
                         None \<Rightarrow> key @ ''_'' @ fresh k
                       | Some v \<Rightarrow> if js_truthy v then js_String v else key @ ''_'' @ fresh k)
                      (if startsWith key ''lv_'' then key else ''lv_'' @ key)
                      (case getProp item ''name'' of
                         None \<Rightarrow> key
                       | Some v \<Rightarrow> if js_truthy v then js_String v else key)
                      (extractProperties (js_entries item) [])
                      (fst kids);
             others = parseItems fresh key items (snd kids)
         in (node # fst others, snd others)))"
  by pat_completeness auto
termination
proof (relation "measures [
     (\<lambda>x. case x of Inl (f, v, k) \<Rightarrow> entriesWeight (js_entries v)
                   | Inr (Inl (f, es, k)) \<Rightarrow> entriesWeight es
                   | Inr (Inr (f, key, xs, k)) \<Rightarrow> itemsWeight xs),
     (\<lambda>x. case x of Inl (f, v, k) \<Rightarrow> 2
                   | Inr (Inl (f, es, k)) \<Rightarrow> 1
                   | Inr (Inr (f, key, xs, k)) \<Rightarrow> 0),
     (\<lambda>x. case x of Inl (f, v, k) \<Rightarrow> 0
                   | Inr (Inl (f, es, k)) \<Rightarrow> length es
                   | Inr (Inr (f, key, xs, k)) \<Rightarrow> length xs)]", goal_cases)
  case 1
  then show ?case by simp
next
  case (2 fresh parent k)
  then show ?case by simp
next
  case (3 fresh key v rest k)
  then show ?case by (auto simp: entriesWeight_Cons)
next
  case (4 fresh key v rest k)
  have "itemsWeight (itemsOf v) \<le> objWeight v" by (rule itemsWeight_itemsOf)
  then show ?case by (auto simp: entriesWeight_Cons)
next
  case (5 fresh key v rest k x)
  then show ?case by (auto simp: entriesWeight_Cons)
next
  case (6 fresh key item items k)
  then show ?case by (auto simp: itemsWeight_Cons)
next
  case (7 fresh key item items k)
  then have "entriesWeight (js_entries item) < objWeight item"
    by (simp add: entriesWeight_entries)
  then show ?case by (simp add: itemsWeight_Cons)
next
  case (8 fresh key item items k x xa xb xc)
  then show ?case by (auto simp: itemsWeight_Cons)
qed

text \<open>
  \<open>parseXmlToNodes\<close>. \<open>tryBlock\<close> is the body of the \<open>try\<close>, where the library may
  throw; \<open>parseXmlToNodes\<close> adds the \<open>catch\<close>, which returns the empty forest. The result
  is \<open>Inr\<close> of the forest returned, or \<open>Inl\<close> of an error that reaches the caller.
\<close>

definition tryBlock ::
  "(string \<Rightarrow> XmlError + JsValue) \<Rightarrow> (nat \<Rightarrow> string) \<Rightarrow> nat \<Rightarrow> string \<Rightarrow> XmlError + LvglNode list" where
  "tryBlock xml fresh k xmlContent =
     (case xml xmlContent of
        Inl e \<Rightarrow> Inl e
      | Inr parsed \<Rightarrow>
          (let root = (case getProp parsed ''lvgl'' of
                         None \<Rightarrow> parsed
                       | Some r \<Rightarrow> if js_truthy r then r else parsed)
           in if \<not> js_truthy root then Inr [] else Inr (fst (parseChildren fresh root k))))"

definition parseXmlToNodes ::
  "(string \<Rightarrow> XmlError + JsValue) \<Rightarrow> (nat \<Rightarrow> string) \<Rightarrow> nat \<Rightarrow> string \<Rightarrow> XmlError + LvglNode list" where
  "parseXmlToNodes xml fresh k xmlContent =
     (case tryBlock xml fresh k xmlContent of
        Inl e \<Rightarrow> Inr []
      | Inr nodes \<Rightarrow> Inr nodes)"

section \<open>The document serializer\<close>

text \<open>One attribute of \<open>nodeToXml\<close>: only a string value has its quotes replaced.\<close>

definition attributeToXml :: "string \<times> PropValue \<Rightarrow> string" where
  "attributeToXml entry =
     (case snd entry of
        PStr s \<Rightarrow> '' '' @ fst entry @ ''='' @ [dq] @ replaceAllChar dq ''&quot;'' s @ [dq]
      | v \<Rightarrow> '' '' @ fst entry @ ''='' @ [dq] @ valueToString v @ [dq])"

fun nodeToXml :: "LvglNode \<Rightarrow> string \<Rightarrow> string"
and childrenToXml :: "LvglNode list \<Rightarrow> string \<Rightarrow> string" where
  "nodeToXml (LvglNode i t n props cs) indent =
     (let tagName = replaceFirst ''lv_'' [] t;
          xml = indent @ ''<'' @ tagName
                @ '' id='' @ [dq] @ i @ [dq] @ '' name='' @ [dq] @ n @ [dq]
                @ concat (map attributeToXml props)
      in if length cs > 0 then
           xml @ ''>'' @ [nl] @ childrenToXml cs (indent @ ''  '')
             @ indent @ ''</'' @ tagName @ ''>'' @ [nl]
         else xml @ ''/>'' @ [nl])"
| "childrenToXml [] indent = []"
| "childrenToXml (child # rest) indent = nodeToXml child indent @ childrenToXml rest indent"

definition nodesToXml :: "LvglNode list \<Rightarrow> string" where
  "nodesToXml nodes =
     ''<?xml version='' @ [dq] @ ''1.0'' @ [dq] @ '' encoding='' @ [dq] @ ''UTF-8'' @ [dq]
       @ ''?>'' @ [nl]
     @ ''<lvgl version='' @ [dq] @ ''1.0'' @ [dq] @ ''>'' @ [nl]
     @ childrenToXml nodes ''  ''
     @ ''</lvgl>'' @ [nl]"

section \<open>Lines of a generated text\<close>

text \<open>
  The lines of a text: every line feed ends a line, and a last line without a line feed
  counts as a line.
\<close>

fun splitLines :: "string \<Rightarrow> string list" where
  "splitLines [] = []"
| "splitLines (c # cs) =
     (if c = nl then [] # splitLines cs
      else case splitLines cs of [] \<Rightarrow> [[c]] | l # ls \<Rightarrow> (c # l) # ls)"

text \<open>
  A comment line of the generated C text: after the leading spaces it starts a block
  comment (\<open>/*\<close>) or continues or ends one (\<open>*\<close>).
\<close>

definition isCommentLine :: "string \<Rightarrow> bool" where
  "isCommentLine l =
     (startsWith (dropWhile (\<lambda>c. c = CHR '' '') l) ''/*''
      \<or> startsWith (dropWhile (\<lambda>c. c = CHR '' '') l) ''*'')"

text \<open>The text with its comment lines deleted.\<close>

definition removeCommentLines :: "string \<Rightarrow> string" where
  "removeCommentLines s =
     concat (map (\<lambda>l. l @ [nl]) (filter (\<lambda>l. \<not> isCommentLine l) (splitLines s)))"

text \<open>The lines of a text that are neither comment lines nor blank.\<close>

definition statementLines :: "string \<Rightarrow> string list" where
  "statementLines s = filter (\<lambda>l. l \<noteq> [] \<and> \<not> isCommentLine l) (splitLines s)"

text \<open>A text made of whole lines: it is empty or ends with a line feed.\<close>

definition lineTerminated :: "string \<Rightarrow> bool" where
  "lineTerminated s = (s = [] \<or> last s = nl)"

text \<open>No node of the forest has a line feed in its name.\<close>

fun nameOnOneLine :: "LvglNode \<Rightarrow> bool"
and namesOnOneLine :: "LvglNode list \<Rightarrow> bool" where
  "nameOnOneLine (LvglNode i t n props cs) = (nl \<notin> set n \<and> namesOnOneLine cs)"
| "namesOnOneLine [] = True"
| "namesOnOneLine (c # cs) = (nameOnOneLine c \<and> namesOnOneLine cs)"

section \<open>Sample readings of the XML library\<close>

text \<open>
  A reader that knows finitely many documents: it returns the listed value for a listed
  text and throws for any other.
\<close>

definition xmlTable :: "(string \<times> JsValue) list \<Rightarrow> string \<Rightarrow> XmlError + JsValue" where
  "xmlTable tbl text =
     (case map_of tbl text of Some v \<Rightarrow> Inr v | None \<Rightarrow> Inl (XmlError ''not well-formed''))"

section \<open>Sample documents\<close>

text \<open>
  Documents used to run the parser and the serializer on concrete inputs, each with the
  value \<open>XMLParser.parse\<close> returns for it under the options of \<open>parseXmlToNodes\<close>
  (\<open>ignoreAttributes: false\<close>, \<open>attributeNamePrefix: ''\<close>,
  \<open>allowBooleanAttributes: true\<close>, every other option at its default): an element is an
  object whose entries are its child elements, then its attributes; the value of a quoted
  attribute is a string; elements with the same tag under one parent are collected in an
  array; the XML declaration is the entry \<open>?xml\<close>.
\<close>

abbreviation sq :: char where "sq \<equiv> CHR 0x27"

text \<open>
  \<open><lvgl version="1.0"><switch id="s" name="sw" checked="true" width="100"/></lvgl>\<close>
\<close>

definition switchDocument :: string where
  "switchDocument =
     ''<lvgl version='' @ [dq] @ ''1.0'' @ [dq] @ ''><switch id='' @ [dq] @ ''s'' @ [dq]
     @ '' name='' @ [dq] @ ''sw'' @ [dq] @ '' checked='' @ [dq] @ ''true'' @ [dq]
     @ '' width='' @ [dq] @ ''100'' @ [dq] @ ''/></lvgl>''"

definition switchParsed :: JsValue where
  "switchParsed =
     JObj [(''lvgl'', JObj [(''switch'', JObj [(''id'', JStr ''s''), (''name'', JStr ''sw''),
                                               (''checked'', JStr ''true''),
                                               (''width'', JStr ''100'')]),
                            (''version'', JStr ''1.0'')])]"

text \<open>
  \<open><lvgl version="1.0"><label id="a" name='x" y="1'/></lvgl>\<close>: a name that holds
  double quotes, written between single quotes.
\<close>

definition quotedName :: string where
  "quotedName = ''x'' @ [dq] @ '' y='' @ [dq] @ ''1''"

definition quotedNameDocument :: string where
  "quotedNameDocument =
     ''<lvgl version='' @ [dq] @ ''1.0'' @ [dq] @ ''><label id='' @ [dq] @ ''a'' @ [dq]
     @ '' name='' @ [sq] @ quotedName @ [sq] @ ''/></lvgl>''"

definition quotedNameParsed :: JsValue where
  "quotedNameParsed =
     JObj [(''lvgl'', JObj [(''label'', JObj [(''id'', JStr ''a''),
                                              (''name'', JStr quotedName)]),
                            (''version'', JStr ''1.0'')])]"

text \<open>
  What the serializer writes for the forest parsed from it, and the reading of that text:
  \<open><label id="a" name="x" y="1"/>\<close> inside the \<open>lvgl\<close> root.
\<close>

definition quotedNameSerialized :: string where
  "quotedNameSerialized =
     ''<?xml version='' @ [dq] @ ''1.0'' @ [dq] @ '' encoding='' @ [dq] @ ''UTF-8'' @ [dq]
       @ ''?>'' @ [nl]
     @ ''<lvgl version='' @ [dq] @ ''1.0'' @ [dq] @ ''>'' @ [nl]
     @ ''  <label id='' @ [dq] @ ''a'' @ [dq] @ '' name='' @ [dq] @ ''x'' @ [dq]
       @ '' y='' @ [dq] @ ''1'' @ [dq] @ ''/>'' @ [nl]
     @ ''</lvgl>'' @ [nl]"

definition quotedNameReparsed :: JsValue where
  "quotedNameReparsed =
     JObj [(''?xml'', JObj [(''version'', JStr ''1.0''), (''encoding'', JStr ''UTF-8'')]),
           (''lvgl'', JObj [(''label'', JObj [(''id'', JStr ''a''), (''name'', JStr ''x''),
                                              (''y'', JStr ''1'')]),
                            (''version'', JStr ''1.0'')])]"

text \<open>
  \<open><lvgl version="1.0"><lv_lv_obj id="a"/></lvgl>\<close>: a tag that carries the prefix
  twice.
\<close>

definition doublePrefixDocument :: string where
  "doublePrefixDocument =
     ''<lvgl version='' @ [dq] @ ''1.0'' @ [dq] @ ''><lv_lv_obj id='' @ [dq] @ ''a'' @ [dq]
     @ ''/></lvgl>''"

definition doublePrefixParsed :: JsValue where
  "doublePrefixParsed =
     JObj [(''lvgl'', JObj [(''lv_lv_obj'', JObj [(''id'', JStr ''a'')]),
                            (''version'', JStr ''1.0'')])]"

text \<open>
  What the serializer writes for the forest parsed from it, and the reading of that text:
  \<open><lv_obj id="a" name="lv_lv_obj"/>\<close> inside the \<open>lvgl\<close> root.
\<close>

definition doublePrefixSerialized :: string where
  "doublePrefixSerialized =
     ''<?xml version='' @ [dq] @ ''1.0'' @ [dq] @ '' encoding='' @ [dq] @ ''UTF-8'' @ [dq]
       @ ''?>'' @ [nl]
     @ ''<lvgl version='' @ [dq] @ ''1.0'' @ [dq] @ ''>'' @ [nl]
     @ ''  <lv_obj id='' @ [dq] @ ''a'' @ [dq] @ '' name='' @ [dq] @ ''lv_lv_obj'' @ [dq]
       @ ''/>'' @ [nl]
     @ ''</lvgl>'' @ [nl]"

definition doublePrefixReparsed :: JsValue where
  "doublePrefixReparsed =
     JObj [(''?xml'', JObj [(''version'', JStr ''1.0''), (''encoding'', JStr ''UTF-8'')]),
           (''lvgl'', JObj [(''lv_obj'', JObj [(''id'', JStr ''a''),
                                               (''name'', JStr ''lv_lv_obj'')]),
                            (''version'', JStr ''1.0'')])]"

text \<open>
  \<open><lvgl version="1.0"><label id="a" text="A"/><label id="b" text="B"/></lvgl>\<close>: two
  sibling labels without a \<open>name\<close> attribute.
\<close>

definition twoLabelsDocument :: string where
  "twoLabelsDocument =
     ''<lvgl version='' @ [dq] @ ''1.0'' @ [dq] @ ''><label id='' @ [dq] @ ''a'' @ [dq]
     @ '' text='' @ [dq] @ ''A'' @ [dq] @ ''/><label id='' @ [dq] @ ''b'' @ [dq]
     @ '' text='' @ [dq] @ ''B'' @ [dq] @ ''/></lvgl>''"

definition twoLabelsParsed :: JsValue where
  "twoLabelsParsed =
     JObj [(''lvgl'', JObj [(''label'', JArr [JObj [(''id'', JStr ''a''), (''text'', JStr ''A'')],
                                              JObj [(''id'', JStr ''b''), (''text'', JStr ''B'')]]),
                            (''version'', JStr ''1.0'')])]"

text \<open>
  \<open><lvgl><label id="a"</lvgl>\<close>: the tag of the label is not closed. The library does
  not validate the markup and does not throw: it reads up to the next \<open>>\<close> as the tag
  of the label, takes \<open></lvgl\<close> for an attribute without a value, which
  \<open>allowBooleanAttributes\<close> makes \<open>true\<close>, and returns what it has at the end of the
  text.
\<close>

definition unclosedTagDocument :: string where
  "unclosedTagDocument = ''<lvgl><label id='' @ [dq] @ ''a'' @ [dq] @ ''</lvgl>''"

definition unclosedTagParsed :: JsValue where
  "unclosedTagParsed =
     JObj [(''lvgl'', JObj [(''label'', JObj [(''id'', JStr ''a''), (''</lvgl'', JBool True)])])]"


section \<open>The reading of a serialized forest\<close>

text \<open>The tag \<open>nodeToXml\<close> writes for a node.\<close>

definition tagOf :: "LvglNode \<Rightarrow> string" where
  "tagOf node = replaceFirst ''lv_'' [] (node_type node)"

text \<open>
  The value the XML library returns for the text \<open>nodesToXml\<close> writes, when it reads
  every tag and every attribute value back as written: an element is the object of its
  child elements, collected by tag in the order of their first occurrence (one element
  as itself, several as an array), followed by its attributes, each a string.
\<close>

fun wrapGroup :: "JsValue list \<Rightarrow> JsValue" where
  "wrapGroup [x] = x"
| "wrapGroup xs = JArr xs"

function groupEntries :: "(string \<times> JsValue) list \<Rightarrow> (string \<times> JsValue) list" where
  "groupEntries [] = []"
| "groupEntries ((k, v) # rest) =
     (k, wrapGroup (v # map snd (filter (\<lambda>e. fst e = k) rest)))
       # groupEntries (filter (\<lambda>e. fst e \<noteq> k) rest)"
  by pat_completeness auto
termination
  by (relation "measure length") (auto simp: less_Suc_eq_le)

fun elementObject :: "LvglNode \<Rightarrow> JsValue" where
  "elementObject (LvglNode i t n props cs) =
     JObj (groupEntries (map (\<lambda>c. (tagOf c, elementObject c)) cs)
           @ [(''id'', JStr i), (''name'', JStr n)]
           @ map (\<lambda>e. (fst e, JStr (valueToString (snd e)))) props)"

definition documentObject :: "LvglNode list \<Rightarrow> JsValue" where
  "documentObject nodes =
     JObj [(''?xml'', JObj [(''version'', JStr ''1.0''), (''encoding'', JStr ''UTF-8'')]),
           (''lvgl'', JObj (groupEntries (map (\<lambda>c. (tagOf c, elementObject c)) nodes)
                            @ [(''version'', JStr ''1.0'')]))]"

text \<open>
  The forest as it is read back: every property value is the string that was written
  for it.
\<close>

fun asRead :: "LvglNode \<Rightarrow> LvglNode" where
  "asRead (LvglNode i t n props cs) =
     LvglNode i t n (map (\<lambda>e. (fst e, PStr (valueToString (snd e)))) props) (map asRead cs)"

text \<open>
  A tag that \<open>parseChildren\<close> takes for an element and turns back into the type it came
  from, and that cannot be taken for the \<open>id\<close> or \<open>name\<close> attribute.
\<close>

definition elementTag :: "string \<Rightarrow> bool" where
  "elementTag tag =
     (tag \<noteq> [] \<and> \<not> startsWith tag ''lv_'' \<and> \<not> startsWith tag ''@'' \<and> tag \<noteq> ''#text''
      \<and> tag \<noteq> ''lvgl'' \<and> tag \<noteq> ''id'' \<and> tag \<noteq> ''name'')"

text \<open>Equal tags stand next to each other.\<close>

fun groupedTags :: "string list \<Rightarrow> bool" where
  "groupedTags [] = True"
| "groupedTags [t] = True"
| "groupedTags (t # u # ts) = ((t = u \<or> t \<notin> set (u # ts)) \<and> groupedTags (u # ts))"

text \<open>
  The forests of the data model that the serializer writes without loss: identifiers and
  names are not empty, the type is the prefix \<open>lv_\<close> before an element tag, the property
  keys are distinct and are neither \<open>id\<close>, \<open>name\<close> nor the tag of a child, and the
  children with the same tag stand next to each other.
\<close>

fun readableNode :: "LvglNode \<Rightarrow> bool"
and readableNodes :: "LvglNode list \<Rightarrow> bool" where
  "readableNode (LvglNode i t n props cs) =
     (i \<noteq> [] \<and> n \<noteq> [] \<and> startsWith t ''lv_'' \<and> elementTag (drop 3 t)
      \<and> distinct (map fst props) \<and> ''id'' \<notin> fst ` set props \<and> ''name'' \<notin> fst ` set props
      \<and> list_all (\<lambda>c. tagOf c \<notin> fst ` set props) cs
      \<and> groupedTags (map tagOf cs) \<and> readableNodes cs)"
| "readableNodes [] = True"
| "readableNodes (c # cs) = (readableNode c \<and> readableNodes cs)"

text \<open>
  At the top level the tag \<open>version\<close> would meet the attribute of the root element.
\<close>

definition readableForest :: "LvglNode list \<Rightarrow> bool" where
  "readableForest nodes =
     (readableNodes nodes \<and> groupedTags (map tagOf nodes)
      \<and> list_all (\<lambda>c. tagOf c \<noteq> ''version'') nodes)"

text \<open>Three forests of the data model.\<close>

definition screenForest :: "LvglNode list" where
  "screenForest =
     [LvglNode ''root'' ''lv_obj'' ''panel'' [(''width'', PNum 200), (''hidden'', PBool False)]
        [LvglNode ''l1'' ''lv_label'' ''title'' [(''text'', PStr ''Hi'')] [],
         LvglNode ''l2'' ''lv_label'' ''hint'' [] [],
         LvglNode ''b1'' ''lv_btn'' ''ok'' [] []]]"

definition interleavedForest :: "LvglNode list" where
  "interleavedForest =
     [LvglNode ''a'' ''lv_label'' ''first'' [] [],
      LvglNode ''b'' ''lv_btn'' ''ok'' [] [],
      LvglNode ''c'' ''lv_label'' ''second'' [] []]"

definition unnamedForest :: "LvglNode list" where
  "unnamedForest = [LvglNode ''a'' ''lv_label'' [] [] []]"

section \<open>The emitter: unknown types, the counter, geometry\<close>

text \<open>
  Claim C5. For a node whose type is not in the component registry, the emitter returns
  exactly the comment line \<open>// Unknown component type: <type>\<close> behind the indent and
  nothing else, whatever the node's properties and children are, and it leaves the counter
  as it was. In a list of siblings the line is followed directly by the code of the next
  siblings, under the same parent variable: the descendants of the node are dropped. The
  text is one line when neither the indent nor the type holds a line feed.
\<close>

theorem C5_unknown_type_emits_one_comment_line:
  assumes "getComponentByType (node_type node) = None"
  shows "generateComponentCode proto node parentVar indent generateComments counter
           = (indent @ ''// Unknown component type: '' @ node_type node @ [nl], counter)
       \<and> generateChildren proto (node # rest) parentVar indent generateComments counter
           = (indent @ ''// Unknown component type: '' @ node_type node @ [nl]
                @ fst (generateChildren proto rest parentVar indent generateComments counter),
              snd (generateChildren proto rest parentVar indent generateComments counter))
       \<and> (nl \<notin> set indent \<and> nl \<notin> set (node_type node) \<longrightarrow>
            length (filter (\<lambda>c. c = nl)
              (fst (generateComponentCode proto node parentVar indent generateComments counter))) = 1)"
proof -
  obtain i t n props cs where node: "node = LvglNode i t n props cs"
    by (cases node)
  with assms have unknown: "getComponentByType t = None" by simp
  have one: "generateComponentCode proto node parentVar indent generateComments counter
           = (indent @ ''// Unknown component type: '' @ node_type node @ [nl], counter)"
    using unknown by (simp add: node)
  have two: "generateChildren proto (node # rest) parentVar indent generateComments counter
           = (indent @ ''// Unknown component type: '' @ node_type node @ [nl]
                @ fst (generateChildren proto rest parentVar indent generateComments counter),
              snd (generateChildren proto rest parentVar indent generateComments counter))"
    unfolding generateChildren.simps one by (simp add: Let_def)
  have three: "nl \<notin> set indent \<and> nl \<notin> set (node_type node) \<longrightarrow>
            length (filter (\<lambda>c. c = nl)
              (fst (generateComponentCode proto node parentVar indent generateComments counter))) = 1"
    unfolding one by (auto simp: filter_empty_conv)
  from one two three show ?thesis by blast
qed

text \<open>
  Witness for C5: an unknown type \<open>lv_gauge\<close> with a property and a child.
\<close>

theorem C5_unknown_type_witness:
  "getComponentByType (node_type (LvglNode ''n1'' ''lv_gauge'' ''dial'' [(''x'', PNum 5)]
       [LvglNode ''n2'' ''lv_label'' ''inner'' [] []])) = None
   \<and> generateComponentCode (\<lambda>k. None)
        (LvglNode ''n1'' ''lv_gauge'' ''dial'' [(''x'', PNum 5)]
           [LvglNode ''n2'' ''lv_label'' ''inner'' [] []]) ''parent'' ''    '' True 0
      = (''    // Unknown component type: lv_gauge'' @ [nl], 0)"
  using C5_unknown_type_emits_one_comment_line
    [of "LvglNode ''n1'' ''lv_gauge'' ''dial'' [(''x'', PNum 5)]
           [LvglNode ''n2'' ''lv_label'' ''inner'' [] []]" "\<lambda>k. None" "''parent''" "''    ''" True 0 "[]"]
  by (simp add: getComponentByType_def lvglComponents_def mkComponent_def)

text \<open>
  Claim C6. \<open>generateCode\<close> sets the counter to zero first, so its result does not
  depend on the value the counter had before the call; in particular a second call with
  the same arguments, started from the counter the first call left, returns the same
  header and source texts.
\<close>

theorem C6_generateCode_resets_counter:
  "generateCode proto c1 rootNodes screenName generateComments
     = generateCode proto c2 rootNodes screenName generateComments
   \<and> fst (generateCode proto
            (snd (generateCode proto c rootNodes screenName generateComments))
            rootNodes screenName generateComments)
     = fst (generateCode proto c rootNodes screenName generateComments)"
  by (simp add: generateCode_def)

text \<open>
  Claim C7. For a node of a registered type the construction statement is followed
  directly by the position statement and the size statement, whose arguments are the
  properties \<open>x\<close>, \<open>y\<close>, \<open>width\<close>, \<open>height\<close> or their defaults; when
  the node has none of these four keys the statements are \<open>lv_obj_set_pos(v, 0, 0)\<close>
  and \<open>lv_obj_set_size(v, 100, 50)\<close>.
\<close>

theorem C7_geometry_statements:
  assumes "getComponentByType t = Some d"
  shows "(\<exists>rest.
           fst (generateComponentCode proto (LvglNode i t n props cs) parentVar indent
                  generateComments counter)
           = (if generateComments then
                indent @ ''/* Create '' @ displayName d @ '': '' @ fst (variableName t n counter)
                  @ '' */'' @ [nl]
              else [])
             @ indent @ ''lv_obj_t *'' @ fst (variableName t n counter) @ '' = '' @ createCode d
               @ ''('' @ parentVar @ '');'' @ [nl]
             @ indent @ ''lv_obj_set_pos('' @ fst (variableName t n counter) @ '', ''
               @ geometryArg props ''x'' ''0'' @ '', '' @ geometryArg props ''y'' ''0''
               @ '');'' @ [nl]
             @ indent @ ''lv_obj_set_size('' @ fst (variableName t n counter) @ '', ''
               @ geometryArg props ''width'' ''100'' @ '', '' @ geometryArg props ''height'' ''50''
               @ '');'' @ [nl]
             @ rest)
       \<and> (''x'' \<notin> fst ` set props \<and> ''y'' \<notin> fst ` set props
            \<and> ''width'' \<notin> fst ` set props \<and> ''height'' \<notin> fst ` set props \<longrightarrow>
           (\<exists>rest.
             fst (generateComponentCode proto (LvglNode i t n props cs) parentVar indent
                    generateComments counter)
             = (if generateComments then
                  indent @ ''/* Create '' @ displayName d @ '': '' @ fst (variableName t n counter)
                    @ '' */'' @ [nl]
                else [])
               @ indent @ ''lv_obj_t *'' @ fst (variableName t n counter) @ '' = '' @ createCode d
                 @ ''('' @ parentVar @ '');'' @ [nl]
               @ indent @ ''lv_obj_set_pos('' @ fst (variableName t n counter) @ '', 0, 0);'' @ [nl]
               @ indent @ ''lv_obj_set_size('' @ fst (variableName t n counter) @ '', 100, 50);''
                 @ [nl]
               @ rest))"
proof -
  have absent: "geometryArg props k dflt = dflt" if "k \<notin> fst ` set props" for k dflt
  proof -
    from that have "map_of props k = None" by (simp add: map_of_eq_None_iff)
    then show ?thesis by (simp add: geometryArg_def)
  qed
  have general: "\<exists>rest.
           fst (generateComponentCode proto (LvglNode i t n props cs) parentVar indent
                  generateComments counter)
           = (if generateComments then
                indent @ ''/* Create '' @ displayName d @ '': '' @ fst (variableName t n counter)
                  @ '' */'' @ [nl]
              else [])
             @ indent @ ''lv_obj_t *'' @ fst (variableName t n counter) @ '' = '' @ createCode d
               @ ''('' @ parentVar @ '');'' @ [nl]
             @ indent @ ''lv_obj_set_pos('' @ fst (variableName t n counter) @ '', ''
               @ geometryArg props ''x'' ''0'' @ '', '' @ geometryArg props ''y'' ''0''
               @ '');'' @ [nl]
             @ indent @ ''lv_obj_set_size('' @ fst (variableName t n counter) @ '', ''
               @ geometryArg props ''width'' ''100'' @ '', '' @ geometryArg props ''height'' ''50''
               @ '');'' @ [nl]
             @ rest"
    using assms by (simp add: Let_def)
  show ?thesis
  proof (intro conjI impI)
    show "\<exists>rest.
           fst (generateComponentCode proto (LvglNode i t n props cs) parentVar indent
                  generateComments counter)
           = (if generateComments then
                indent @ ''/* Create '' @ displayName d @ '': '' @ fst (variableName t n counter)
                  @ '' */'' @ [nl]
              else [])
             @ indent @ ''lv_obj_t *'' @ fst (variableName t n counter) @ '' = '' @ createCode d
               @ ''('' @ parentVar @ '');'' @ [nl]
             @ indent @ ''lv_obj_set_pos('' @ fst (variableName t n counter) @ '', ''
               @ geometryArg props ''x'' ''0'' @ '', '' @ geometryArg props ''y'' ''0''
               @ '');'' @ [nl]
             @ indent @ ''lv_obj_set_size('' @ fst (variableName t n counter) @ '', ''
               @ geometryArg props ''width'' ''100'' @ '', '' @ geometryArg props ''height'' ''50''
               @ '');'' @ [nl]
             @ rest"
      by (rule general)
  next
    assume "''x'' \<notin> fst ` set props \<and> ''y'' \<notin> fst ` set props
            \<and> ''width'' \<notin> fst ` set props \<and> ''height'' \<notin> fst ` set props"
    then have "geometryArg props ''x'' ''0'' = ''0''" "geometryArg props ''y'' ''0'' = ''0''"
      "geometryArg props ''width'' ''100'' = ''100''" "geometryArg props ''height'' ''50'' = ''50''"
      by (simp_all add: absent)
    with general show "\<exists>rest.
             fst (generateComponentCode proto (LvglNode i t n props cs) parentVar indent
                    generateComments counter)
             = (if generateComments then
                  indent @ ''/* Create '' @ displayName d @ '': '' @ fst (variableName t n counter)
                    @ '' */'' @ [nl]
                else [])
               @ indent @ ''lv_obj_t *'' @ fst (variableName t n counter) @ '' = '' @ createCode d
                 @ ''('' @ parentVar @ '');'' @ [nl]
               @ indent @ ''lv_obj_set_pos('' @ fst (variableName t n counter) @ '', 0, 0);'' @ [nl]
               @ indent @ ''lv_obj_set_size('' @ fst (variableName t n counter) @ '', 100, 50);''
                 @ [nl]
               @ rest"
      by simp
  qed
qed

text \<open>
  Witness for C7: a label with a text and no geometry.
\<close>

theorem C7_geometry_witness:
  "getComponentByType ''lv_label'' = Some (mkComponent ''lv_label'' ''Label'' ''display'' False ''lv_label_create'')
   \<and> ''x'' \<notin> fst ` set [(''text'', PStr ''Hi'')] \<and> ''y'' \<notin> fst ` set [(''text'', PStr ''Hi'')]
   \<and> ''width'' \<notin> fst ` set [(''text'', PStr ''Hi'')] \<and> ''height'' \<notin> fst ` set [(''text'', PStr ''Hi'')]
   \<and> (\<exists>rest.
         fst (generateComponentCode (\<lambda>k. None)
                (LvglNode ''t'' ''lv_label'' ''title'' [(''text'', PStr ''Hi'')] [])
                ''parent'' ''    '' False 0)
         = ''    lv_obj_t *title = lv_label_create(parent);'' @ [nl]
           @ ''    lv_obj_set_pos(title, 0, 0);'' @ [nl]
           @ ''    lv_obj_set_size(title, 100, 50);'' @ [nl]
           @ rest)"
proof -
  have known: "getComponentByType ''lv_label''
      = Some (mkComponent ''lv_label'' ''Label'' ''display'' False ''lv_label_create'')"
    by (simp add: getComponentByType_def lvglComponents_def mkComponent_def)
  from C7_geometry_statements [OF known, of "\<lambda>k. None" "''t''" "''title''"
      "[(''text'', PStr ''Hi'')]" "[]" "''parent''" "''    ''" False 0]
  show ?thesis
    using known by (simp add: variableName_def mkComponent_def)
qed
section \<open>Lines of the generated code\<close>

subsection \<open>Lines of concatenated texts\<close>

lemma splitLines_eq_Nil: "splitLines s = [] \<longleftrightarrow> s = []"
  by (cases s) (auto split: list.splits)

lemma splitLines_segment:
  "nl \<notin> set x \<Longrightarrow>
   splitLines (x @ rest)
     = (case splitLines rest of [] \<Rightarrow> (if x = [] then [] else [x]) | l # ls \<Rightarrow> (x @ l) # ls)"
proof (induction x)
  case Nil
  then show ?case by (simp split: list.splits)
next
  case (Cons c x)
  then show ?case by (auto split: list.splits)
qed

lemma splitLines_line: "nl \<notin> set x \<Longrightarrow> splitLines (x @ nl # rest) = x # splitLines rest"
  by (simp add: splitLines_segment)

lemma splitLines_append:
  "a = [] \<or> last a = nl \<Longrightarrow> splitLines (a @ b) = splitLines a @ splitLines b"
proof (induction a)
  case Nil
  then show ?case by simp
next
  case (Cons c a)
  show ?case
  proof (cases "a = []")
    case True
    with Cons.prems show ?thesis by simp
  next
    case False
    with Cons.prems have "last a = nl" by simp
    with Cons.IH have ih: "splitLines (a @ b) = splitLines a @ splitLines b" by simp
    from False have "splitLines a \<noteq> []" by (simp add: splitLines_eq_Nil)
    then obtain l ls where "splitLines a = l # ls" by (cases "splitLines a") auto
    with ih show ?thesis by simp
  qed
qed

lemma statementLines_append:
  "a = [] \<or> last a = nl \<Longrightarrow> statementLines (a @ b) = statementLines a @ statementLines b"
  by (simp add: statementLines_def splitLines_append)

lemma statementLines_Nil: "statementLines [] = []"
  by (simp add: statementLines_def)

lemma isCommentLine_indented:
  assumes "set indent \<subseteq> {CHR '' ''}"
  shows "isCommentLine (indent @ CHR ''/'' # CHR ''*'' # rest)"
proof -
  from assms have "dropWhile (\<lambda>c. c = CHR '' '') indent = []"
    by (auto simp: dropWhile_eq_Nil_conv)
  then have "dropWhile (\<lambda>c. c = CHR '' '') (indent @ CHR ''/'' # CHR ''*'' # rest)
          = CHR ''/'' # CHR ''*'' # rest"
    by (simp add: dropWhile_append3)
  then show ?thesis by (simp add: isCommentLine_def)
qed

lemma statementLines_comment:
  assumes "set indent \<subseteq> {CHR '' ''}" and "nl \<notin> set body"
  shows "statementLines (indent @ ''/*'' @ body @ [nl]) = []"
proof -
  from assms have "nl \<notin> set (indent @ ''/*'' @ body)" by auto
  then have "splitLines ((indent @ ''/*'' @ body) @ nl # []) = [indent @ ''/*'' @ body]"
    using splitLines_line [of "indent @ ''/*'' @ body" "[]"] by simp
  moreover have "isCommentLine (indent @ ''/*'' @ body)"
    using isCommentLine_indented [OF assms(1)] by simp
  ultimately show ?thesis by (simp add: statementLines_def)
qed

subsection \<open>Names without line feeds\<close>

lemma set_replaceFirst_empty: "set (replaceFirst pat [] s) \<subseteq> set s"
proof (induction s)
  case Nil
  then show ?case by simp
next
  case (Cons c s)
  have "set (drop (length pat) (c # s)) \<subseteq> set (c # s)" by (rule set_drop_subset)
  with Cons show ?case by auto
qed

lemma digitChar_not_nl: "d < 10 \<Longrightarrow> digitChar d \<noteq> nl"
proof -
  assume "d < 10"
  then have "d \<in> {0, 1, 2, 3, 4, 5, 6, 7, 8, 9}" by auto
  then show ?thesis by (auto simp: digitChar_def)
qed

lemma natToString_no_nl: "nl \<notin> set (natToString n)"
proof (induction n rule: natToString.induct)
  case (1 n)
  show ?case
  proof (cases "n < 10")
    case True
    then have "digitChar n \<noteq> nl" by (rule digitChar_not_nl)
    with True show ?thesis by (subst natToString.simps) auto
  next
    case False
    with 1 have "nl \<notin> set (natToString (n div 10))" by simp
    moreover have "digitChar (n mod 10) \<noteq> nl" by (rule digitChar_not_nl) simp
    ultimately show ?thesis using False by (subst natToString.simps) auto
  qed
qed

lemma registry_no_nl:
  assumes "getComponentByType t = Some d"
  shows "nl \<notin> set t \<and> nl \<notin> set (displayName d)"
proof -
  from assms have "d \<in> set lvglComponents" and "ctype d = t"
    by (auto simp: getComponentByType_def find_Some_iff)
  moreover have "\<forall>c \<in> set lvglComponents. nl \<notin> set (ctype c) \<and> nl \<notin> set (displayName c)"
    by (simp add: lvglComponents_def mkComponent_def)
  ultimately show ?thesis by blast
qed

lemma variableName_no_nl:
  assumes "getComponentByType t = Some d" and "nl \<notin> set n"
  shows "nl \<notin> set (fst (variableName t n counter))"
proof (cases "n = []")
  case True
  from assms(1) have "nl \<notin> set t" by (simp add: registry_no_nl)
  with set_replaceFirst_empty [of "''lv_''" t] have "nl \<notin> set (replaceFirst ''lv_'' [] t)" by auto
  with True show ?thesis by (simp add: variableName_def natToString_no_nl)
next
  case False
  with assms(2) show ?thesis by (simp add: variableName_def)
qed


subsection \<open>The code of a node, in pieces\<close>

text \<open>The statements of a known node that do not depend on the comments flag.\<close>

lemma generateComponentCode_known:
  assumes "getComponentByType t = Some d"
  shows "generateComponentCode proto (LvglNode i t n props cs) parentVar indent gc counter
     = ((if gc then
           indent @ ''/*'' @ ('' Create '' @ displayName d @ '': '' @ fst (variableName t n counter)
             @ '' */'') @ [nl]
         else [])
        @ (indent @ ''lv_obj_t *'' @ fst (variableName t n counter) @ '' = '' @ createCode d
             @ ''('' @ parentVar @ '');'' @ [nl]
           @ indent @ ''lv_obj_set_pos('' @ fst (variableName t n counter) @ '', ''
             @ geometryArg props ''x'' ''0'' @ '', '' @ geometryArg props ''y'' ''0'' @ '');'' @ [nl]
           @ indent @ ''lv_obj_set_size('' @ fst (variableName t n counter) @ '', ''
             @ geometryArg props ''width'' ''100'' @ '', '' @ geometryArg props ''height'' ''50''
             @ '');'' @ [nl]
           @ concat (map (propertyStatement proto indent (fst (variableName t n counter)) t) props))
        @ [nl]
        @ fst (generateChildren proto cs (fst (variableName t n counter)) indent gc
                 (snd (variableName t n counter))),
        snd (generateChildren proto cs (fst (variableName t n counter)) indent gc
               (snd (variableName t n counter))))"
  using assms by (simp add: Let_def)

lemma generateComponentCode_unknown:
  assumes "getComponentByType t = None"
  shows "generateComponentCode proto (LvglNode i t n props cs) parentVar indent gc counter
     = (indent @ ''// Unknown component type: '' @ t @ [nl], counter)"
  using assms by simp

lemma generated_ends_with_nl:
  "fst (generateComponentCode proto node parentVar indent gc counter) \<noteq> []
   \<and> last (fst (generateComponentCode proto node parentVar indent gc counter)) = nl"
  "fst (generateChildren proto nodes parentVar indent gc counter) = []
   \<or> last (fst (generateChildren proto nodes parentVar indent gc counter)) = nl"
proof (induction proto node parentVar indent gc counter
         and proto nodes parentVar indent gc counter
       rule: generateComponentCode_generateChildren.induct)
  case (1 proto i t n props cs parentVar indent generateComments counter)
  show ?case
  proof (cases "getComponentByType t")
    case None
    then show ?thesis by (simp add: generateComponentCode_unknown)
  next
    case (Some d)
    from "1" [OF Some refl refl refl]
    have kids: "fst (generateChildren proto cs (fst (variableName t n counter)) indent
                  generateComments (snd (variableName t n counter))) = []
        \<or> last (fst (generateChildren proto cs (fst (variableName t n counter)) indent
                  generateComments (snd (variableName t n counter)))) = nl" .
    then show ?thesis
      unfolding generateComponentCode_known [OF Some] by (auto simp: last_append)
  qed
next
  case (2 proto parentVar indent generateComments counter)
  then show ?case by simp
next
  case (3 proto child rest parentVar indent generateComments counter)
  from "3.IH"(1) have first: "fst (generateComponentCode proto child parentVar indent
       generateComments counter) \<noteq> []"
    "last (fst (generateComponentCode proto child parentVar indent generateComments counter)) = nl"
    by simp_all
  from "3.IH"(2) [OF refl]
  have others: "fst (generateChildren proto rest parentVar indent generateComments
        (snd (generateComponentCode proto child parentVar indent generateComments counter))) = []
     \<or> last (fst (generateChildren proto rest parentVar indent generateComments
        (snd (generateComponentCode proto child parentVar indent generateComments counter)))) = nl" .
  from first others show ?case by (auto simp: Let_def last_append)
qed

lemma counter_independent:
  "snd (generateComponentCode proto node parentVar indent gc counter)
     = snd (generateComponentCode proto node parentVar' indent' gc' counter)"
  "snd (generateChildren proto nodes parentVar indent gc counter)
     = snd (generateChildren proto nodes parentVar' indent' gc' counter)"
proof (induction proto node parentVar indent gc counter
         and proto nodes parentVar indent gc counter
       arbitrary: parentVar' indent' gc' and parentVar' indent' gc'
       rule: generateComponentCode_generateChildren.induct)
  case (1 proto i t n props cs parentVar indent generateComments counter)
  show ?case
  proof (cases "getComponentByType t")
    case None
    then show ?thesis by (simp add: generateComponentCode_unknown)
  next
    case (Some d)
    from "1" [OF Some refl refl refl] show ?thesis
      unfolding generateComponentCode_known [OF Some] by simp
  qed
next
  case (2 proto parentVar indent generateComments counter)
  then show ?case by simp
next
  case (3 proto child rest parentVar indent generateComments counter)
  have c: "snd (generateComponentCode proto child parentVar' indent' gc' counter)
      = snd (generateComponentCode proto child parentVar indent generateComments counter)"
    using "3.IH"(1) [of parentVar' indent' gc'] by simp
  from "3.IH"(2) [OF refl, of parentVar' indent' gc'] show ?case
    by (simp add: Let_def c)
qed

lemma statementLines_flag:
  "nameOnOneLine node \<Longrightarrow> set indent \<subseteq> {CHR '' ''} \<Longrightarrow>
   statementLines (fst (generateComponentCode proto node parentVar indent gc counter))
     = statementLines (fst (generateComponentCode proto node parentVar indent False counter))"
  "namesOnOneLine nodes \<Longrightarrow> set indent \<subseteq> {CHR '' ''} \<Longrightarrow>
   statementLines (fst (generateChildren proto nodes parentVar indent gc counter))
     = statementLines (fst (generateChildren proto nodes parentVar indent False counter))"
proof (induction proto node parentVar indent gc counter
         and proto nodes parentVar indent gc counter
       rule: generateComponentCode_generateChildren.induct)
  case (1 proto i t n props cs parentVar indent generateComments counter)
  show ?case
  proof (cases "getComponentByType t")
    case None
    then show ?thesis by (simp add: generateComponentCode_unknown)
  next
    case (Some d)
    from "1.prems" have n: "nl \<notin> set n" and cs: "namesOnOneLine cs" by simp_all
    let ?v = "fst (variableName t n counter)"
    from Some n have "nl \<notin> set ?v" by (rule variableName_no_nl)
    moreover from Some have "nl \<notin> set (displayName d)" by (simp add: registry_no_nl)
    ultimately have "nl \<notin> set ('' Create '' @ displayName d @ '': '' @ ?v @ '' */'')" by simp
    with "1.prems"(2)
    have cmt: "statementLines (indent @ ''/*'' @ ('' Create '' @ displayName d @ '': '' @ ?v
                 @ '' */'') @ [nl]) = []"
      by (rule statementLines_comment)
    have cmt_end: "indent @ ''/*'' @ ('' Create '' @ displayName d @ '': '' @ ?v
                 @ '' */'') @ [nl] = []
       \<or> last (indent @ ''/*'' @ ('' Create '' @ displayName d @ '': '' @ ?v
                 @ '' */'') @ [nl]) = nl" by simp
    let ?own = "indent @ ''lv_obj_t *'' @ ?v @ '' = '' @ createCode d
             @ ''('' @ parentVar @ '');'' @ [nl]
           @ indent @ ''lv_obj_set_pos('' @ ?v @ '', ''
             @ geometryArg props ''x'' ''0'' @ '', '' @ geometryArg props ''y'' ''0'' @ '');'' @ [nl]
           @ indent @ ''lv_obj_set_size('' @ ?v @ '', ''
             @ geometryArg props ''width'' ''100'' @ '', '' @ geometryArg props ''height'' ''50''
             @ '');'' @ [nl]
           @ concat (map (propertyStatement proto indent ?v t) props)"
    have own_end: "?own @ [nl] = [] \<or> last (?own @ [nl]) = nl" by simp
    have kids: "statementLines (fst (generateChildren proto cs ?v indent generateComments
                   (snd (variableName t n counter))))
        = statementLines (fst (generateChildren proto cs ?v indent False
                   (snd (variableName t n counter))))"
      using "1.IH" [OF Some refl refl refl cs "1.prems"(2)] .
    have shape: "fst (generateComponentCode proto (LvglNode i t n props cs) parentVar indent b counter)
        = (if b then indent @ ''/*'' @ ('' Create '' @ displayName d @ '': '' @ ?v @ '' */'') @ [nl]
           else [])
          @ ((?own @ [nl])
          @ fst (generateChildren proto cs ?v indent b (snd (variableName t n counter))))" for b
      unfolding generateComponentCode_known [OF Some] by simp
    show ?thesis
    proof (cases generateComments)
      case True
      have "statementLines (fst (generateComponentCode proto (LvglNode i t n props cs) parentVar
                indent True counter))
          = statementLines ((?own @ [nl])
              @ fst (generateChildren proto cs ?v indent True (snd (variableName t n counter))))"
        unfolding shape [of True] if_True
        by (subst statementLines_append [OF cmt_end]) (simp only: cmt append_Nil)
      also have "\<dots> = statementLines (?own @ [nl])
          @ statementLines (fst (generateChildren proto cs ?v indent True
               (snd (variableName t n counter))))"
        by (rule statementLines_append [OF own_end])
      also have "\<dots> = statementLines (?own @ [nl])
          @ statementLines (fst (generateChildren proto cs ?v indent False
               (snd (variableName t n counter))))"
        using kids True by simp
      also have "\<dots> = statementLines ((?own @ [nl])
              @ fst (generateChildren proto cs ?v indent False (snd (variableName t n counter))))"
        by (rule statementLines_append [OF own_end, symmetric])
      also have "\<dots> = statementLines (fst (generateComponentCode proto (LvglNode i t n props cs)
                parentVar indent False counter))"
        unfolding shape [of False] by simp
      finally show ?thesis using True by simp
    next
      case False
      then show ?thesis by simp
    qed
  qed
next
  case (2 proto parentVar indent generateComments counter)
  then show ?case by simp
next
  case (3 proto child rest parentVar indent generateComments counter)
  from "3.prems" have child: "nameOnOneLine child" and rest: "namesOnOneLine rest" by simp_all
  have c: "snd (generateComponentCode proto child parentVar indent False counter)
      = snd (generateComponentCode proto child parentVar indent generateComments counter)"
    by (rule counter_independent)
  have first: "statementLines (fst (generateComponentCode proto child parentVar indent
        generateComments counter))
      = statementLines (fst (generateComponentCode proto child parentVar indent False counter))"
    using "3.IH"(1) [OF child "3.prems"(2)] .
  have others: "statementLines (fst (generateChildren proto rest parentVar indent generateComments
         (snd (generateComponentCode proto child parentVar indent generateComments counter))))
      = statementLines (fst (generateChildren proto rest parentVar indent False
         (snd (generateComponentCode proto child parentVar indent generateComments counter))))"
    using "3.IH"(2) [OF refl rest "3.prems"(2)] .
  have ends: "fst (generateComponentCode proto child parentVar indent b counter) = []
      \<or> last (fst (generateComponentCode proto child parentVar indent b counter)) = nl" for b
    using generated_ends_with_nl(1) [of proto child parentVar indent b counter] by simp
  show ?case
    by (simp add: Let_def c statementLines_append [OF ends] first others)
qed


subsection \<open>The framing texts\<close>

lemma toUpperCase_no_nl: "nl \<notin> set s \<Longrightarrow> nl \<notin> set (toUpperCase s)"
proof -
  have "u \<noteq> nl" if "map_of (zip lowerLetters upperLetters) c = Some u" for c u
  proof -
    from that have "(c, u) \<in> set (zip lowerLetters upperLetters)" by (rule map_of_SomeD)
    then have "u \<in> set upperLetters" by (rule set_zip_rightD)
    then show ?thesis by (auto simp: upperLetters_def)
  qed
  then have "map_of (zip lowerLetters upperLetters) c \<noteq> Some nl" for c by blast
  then show "nl \<notin> set s \<Longrightarrow> nl \<notin> set (toUpperCase s)"
    by (auto simp: toUpperCase_def split: option.splits)
qed

lemma toLowerCase_no_nl: "nl \<notin> set s \<Longrightarrow> nl \<notin> set (toLowerCase s)"
proof -
  have "l \<noteq> nl" if "map_of (zip upperLetters lowerLetters) c = Some l" for c l
  proof -
    from that have "(c, l) \<in> set (zip upperLetters lowerLetters)" by (rule map_of_SomeD)
    then have "l \<in> set lowerLetters" by (rule set_zip_rightD)
    then show ?thesis by (auto simp: lowerLetters_def)
  qed
  then have "map_of (zip upperLetters lowerLetters) c \<noteq> Some nl" for c by blast
  then show "nl \<notin> set s \<Longrightarrow> nl \<notin> set (toLowerCase s)"
    by (auto simp: toLowerCase_def split: option.splits)
qed

lemma statementLines_headerText:
  assumes "nl \<notin> set s"
  shows "statementLines (headerText s gc)
     = [''#ifndef '' @ toUpperCase s @ ''_H'',
        ''#define '' @ toUpperCase s @ ''_H'',
        ''#include '' @ [dq] @ ''lvgl.h'' @ [dq],
        ''void '' @ toLowerCase s @ ''_create(lv_obj_t *parent);'',
        ''#endif /* '' @ toUpperCase s @ ''_H */'']"
proof -
  from assms have u: "nl \<notin> set (toUpperCase s)" and l: "nl \<notin> set (toLowerCase s)"
    by (simp_all add: toUpperCase_no_nl toLowerCase_no_nl)
  show ?thesis
    using assms u l
    by (cases gc)
       (simp_all add: headerText_def Let_def statementLines_def splitLines_segment isCommentLine_def)
qed

lemma statementLines_sourcePrologue:
  assumes "nl \<notin> set s"
  shows "statementLines (sourcePrologue s gc)
     = [''#include '' @ [dq] @ toLowerCase s @ ''.h'' @ [dq],
        ''void '' @ toLowerCase s @ ''_create(lv_obj_t *parent)'',
        ''{'']"
proof -
  from assms have l: "nl \<notin> set (toLowerCase s)"
    by (simp_all add: toLowerCase_no_nl)
  show ?thesis
    using assms l
    by (cases gc)
       (simp_all add: sourcePrologue_def Let_def statementLines_def splitLines_segment isCommentLine_def)
qed

lemma statementLines_sourceEpilogue: "statementLines (sourceEpilogue gc) = [''}'']"
  by (cases gc) (simp_all add: sourceEpilogue_def statementLines_def isCommentLine_def)

lemma sourcePrologue_ends: "sourcePrologue s gc = [] \<or> last (sourcePrologue s gc) = nl"
  by (simp add: sourcePrologue_def Let_def)

subsection \<open>Property statements are whole lines\<close>

lemma lineTerminated_if:
  "lineTerminated a \<Longrightarrow> lineTerminated b \<Longrightarrow> lineTerminated (if c then a else b)"
  by simp

lemma lineTerminated_append:
  "lineTerminated a \<Longrightarrow> lineTerminated b \<Longrightarrow> lineTerminated (a @ b)"
  by (auto simp: lineTerminated_def last_append)

lemma lineTerminated_componentSpecific:
  "lineTerminated (componentSpecific proto indent varName ntype propName v)"
  unfolding componentSpecific_def
  apply (intro lineTerminated_if)
  apply (simp_all add: lineTerminated_def)
  done

lemma lineTerminated_propertyStatement:
  "lineTerminated (propertyStatement proto indent varName ntype entry)"
  unfolding propertyStatement_def Let_def
  apply (intro lineTerminated_if lineTerminated_componentSpecific)
  apply (simp_all add: lineTerminated_def)
  done

lemma lineTerminated_properties:
  "lineTerminated (concat (map (propertyStatement proto indent varName ntype) props))"
  by (induction props)
     (simp_all add: lineTerminated_def [of "[]"] lineTerminated_append
        lineTerminated_propertyStatement)
section \<open>Where the blank separator line stands\<close>

text \<open>
  Claim C8, as the code has it. For a node of a registered type the code is: the node's
  own statements \<open>own\<close> (whole lines: the optional comment, the construction, the
  geometry and the property statements), then the blank line, then the code of the
  children. The blank line is the last line of the node's code taken without children,
  so it stands between the node's own statements and its children's statements.
\<close>

theorem C8_separator_follows_own_statements:
  assumes "getComponentByType t = Some d"
  shows "\<exists>own. own \<noteq> [] \<and> last own = nl
       \<and> fst (generateComponentCode proto (LvglNode i t n props []) parentVar indent gc counter)
           = own @ [nl]
       \<and> generateComponentCode proto (LvglNode i t n props cs) parentVar indent gc counter
           = (own @ [nl]
                @ fst (generateChildren proto cs (fst (variableName t n counter)) indent gc
                         (snd (variableName t n counter))),
              snd (generateChildren proto cs (fst (variableName t n counter)) indent gc
                     (snd (variableName t n counter))))"
proof -
  let ?v = "fst (variableName t n counter)"
  let ?head = "(if gc then
           indent @ ''/*'' @ ('' Create '' @ displayName d @ '': '' @ ?v @ '' */'') @ [nl]
         else [])
        @ indent @ ''lv_obj_t *'' @ ?v @ '' = '' @ createCode d
             @ ''('' @ parentVar @ '');'' @ [nl]
           @ indent @ ''lv_obj_set_pos('' @ ?v @ '', ''
             @ geometryArg props ''x'' ''0'' @ '', '' @ geometryArg props ''y'' ''0'' @ '');'' @ [nl]
           @ indent @ ''lv_obj_set_size('' @ ?v @ '', ''
             @ geometryArg props ''width'' ''100'' @ '', '' @ geometryArg props ''height'' ''50''
             @ '');'' @ [nl]"
  let ?props = "concat (map (propertyStatement proto indent ?v t) props)"
  have "lineTerminated ?head" by (simp add: lineTerminated_def)
  moreover have "lineTerminated ?props" by (rule lineTerminated_properties)
  ultimately have "lineTerminated (?head @ ?props)" by (rule lineTerminated_append)
  moreover have nonempty: "?head @ ?props \<noteq> []" by simp
  ultimately have ends: "last (?head @ ?props) = nl" unfolding lineTerminated_def by blast
  have leaf: "fst (generateComponentCode proto (LvglNode i t n props []) parentVar indent gc
      counter) = (?head @ ?props) @ [nl]"
    unfolding generateComponentCode_known [OF assms] by simp
  have full: "generateComponentCode proto (LvglNode i t n props cs) parentVar indent gc counter
           = ((?head @ ?props) @ [nl]
                @ fst (generateChildren proto cs ?v indent gc (snd (variableName t n counter))),
              snd (generateChildren proto cs ?v indent gc (snd (variableName t n counter))))"
    unfolding generateComponentCode_known [OF assms] by simp
  show ?thesis
  proof (intro exI [of _ "?head @ ?props"] conjI)
    show "?head @ ?props \<noteq> []" by (rule nonempty)
    show "last (?head @ ?props) = nl" by (rule ends)
    show "fst (generateComponentCode proto (LvglNode i t n props []) parentVar indent gc
      counter) = (?head @ ?props) @ [nl]" by (rule leaf)
    show "generateComponentCode proto (LvglNode i t n props cs) parentVar indent gc counter
           = ((?head @ ?props) @ [nl]
                @ fst (generateChildren proto cs ?v indent gc (snd (variableName t n counter))),
              snd (generateChildren proto cs ?v indent gc (snd (variableName t n counter))))"
      by (rule full)
  qed
qed

text \<open>Witness for C8: a registered container with one child.\<close>

theorem C8_separator_witness:
  "getComponentByType ''lv_obj''
     = Some (mkComponent ''lv_obj'' ''Object'' ''basic'' True ''lv_obj_create'')
   \<and> (\<exists>own. own \<noteq> [] \<and> last own = nl
       \<and> fst (generateComponentCode (\<lambda>k. None) (LvglNode ''p'' ''lv_obj'' ''panel'' [] [])
                 ''parent'' ''    '' False 0)
           = own @ [nl]
       \<and> generateComponentCode (\<lambda>k. None)
            (LvglNode ''p'' ''lv_obj'' ''panel'' [] [LvglNode ''c'' ''lv_label'' ''title'' [] []])
            ''parent'' ''    '' False 0
           = (own @ [nl]
                @ fst (generateChildren (\<lambda>k. None) [LvglNode ''c'' ''lv_label'' ''title'' [] []]
                         (fst (variableName ''lv_obj'' ''panel'' 0)) ''    '' False
                         (snd (variableName ''lv_obj'' ''panel'' 0))),
              snd (generateChildren (\<lambda>k. None) [LvglNode ''c'' ''lv_label'' ''title'' [] []]
                     (fst (variableName ''lv_obj'' ''panel'' 0)) ''    '' False
                     (snd (variableName ''lv_obj'' ''panel'' 0)))))"
proof -
  have known: "getComponentByType ''lv_obj''
      = Some (mkComponent ''lv_obj'' ''Object'' ''basic'' True ''lv_obj_create'')"
    by (simp add: getComponentByType_def lvglComponents_def mkComponent_def)
  from C8_separator_follows_own_statements [OF known, of "\<lambda>k. None" "''p''" "''panel''" "[]"
      "''parent''" "''    ''" False 0 "[LvglNode ''c'' ''lv_label'' ''title'' [] []]"]
  have inst: "\<exists>own. own \<noteq> [] \<and> last own = nl
       \<and> fst (generateComponentCode (\<lambda>k. None) (LvglNode ''p'' ''lv_obj'' ''panel'' [] [])
                 ''parent'' ''    '' False 0)
           = own @ [nl]
       \<and> generateComponentCode (\<lambda>k. None)
            (LvglNode ''p'' ''lv_obj'' ''panel'' [] [LvglNode ''c'' ''lv_label'' ''title'' [] []])
            ''parent'' ''    '' False 0
           = (own @ [nl]
                @ fst (generateChildren (\<lambda>k. None) [LvglNode ''c'' ''lv_label'' ''title'' [] []]
                         (fst (variableName ''lv_obj'' ''panel'' 0)) ''    '' False
                         (snd (variableName ''lv_obj'' ''panel'' 0))),
              snd (generateChildren (\<lambda>k. None) [LvglNode ''c'' ''lv_label'' ''title'' [] []]
                     (fst (variableName ''lv_obj'' ''panel'' 0)) ''    '' False
                     (snd (variableName ''lv_obj'' ''panel'' 0))))" .
  from known inst show ?thesis by (rule conjI)
qed

text \<open>
  Counterexample to C8 as stated: a panel with one label. The fourth line of the code,
  right after the panel's size statement and before the label's construction, is the
  blank line; the text is not the one with the blank line of the panel after the label's
  statements.
\<close>

theorem C8_separator_counterexample:
  "fst (generateComponentCode (\<lambda>k. None)
         (LvglNode ''p'' ''lv_obj'' ''panel'' [] [LvglNode ''c'' ''lv_label'' ''title'' [] []])
         ''parent'' ''    '' False 0)
     = ''    lv_obj_t *panel = lv_obj_create(parent);'' @ [nl]
       @ ''    lv_obj_set_pos(panel, 0, 0);'' @ [nl]
       @ ''    lv_obj_set_size(panel, 100, 50);'' @ [nl]
       @ [nl]
       @ ''    lv_obj_t *title = lv_label_create(panel);'' @ [nl]
       @ ''    lv_obj_set_pos(title, 0, 0);'' @ [nl]
       @ ''    lv_obj_set_size(title, 100, 50);'' @ [nl]
       @ [nl]
   \<and> fst (generateComponentCode (\<lambda>k. None)
         (LvglNode ''p'' ''lv_obj'' ''panel'' [] [LvglNode ''c'' ''lv_label'' ''title'' [] []])
         ''parent'' ''    '' False 0)
     \<noteq> ''    lv_obj_t *panel = lv_obj_create(parent);'' @ [nl]
       @ ''    lv_obj_set_pos(panel, 0, 0);'' @ [nl]
       @ ''    lv_obj_set_size(panel, 100, 50);'' @ [nl]
       @ ''    lv_obj_t *title = lv_label_create(panel);'' @ [nl]
       @ ''    lv_obj_set_pos(title, 0, 0);'' @ [nl]
       @ ''    lv_obj_set_size(title, 100, 50);'' @ [nl]
       @ [nl]
       @ [nl]"
  by (simp add: getComponentByType_def lvglComponents_def mkComponent_def variableName_def
        geometryArg_def)
section \<open>The comments flag\<close>

text \<open>
  Claim C10, as the code has it. When the screen name and the node names hold no line
  feed, the header and the source generated with comments have the same lines, in the
  same order, as those generated without, once the comment lines and the blank lines are
  left out of both: the flag adds comment lines and blank lines only.
\<close>

theorem C10_flag_adds_only_comment_and_blank_lines:
  assumes "nl \<notin> set screenName" and "namesOnOneLine rootNodes"
  shows "statementLines (headerContent (fst (generateCode proto counter rootNodes screenName True)))
           = statementLines (headerContent (fst (generateCode proto counter rootNodes screenName False)))
       \<and> statementLines (sourceContent (fst (generateCode proto counter rootNodes screenName True)))
           = statementLines (sourceContent (fst (generateCode proto counter rootNodes screenName False)))"
proof -
  have indent: "set ''    '' \<subseteq> {CHR '' ''}" by simp
  have body: "statementLines (fst (generateChildren proto rootNodes ''parent'' ''    '' True 0))
      = statementLines (fst (generateChildren proto rootNodes ''parent'' ''    '' False 0))"
    using statementLines_flag(2) [OF assms(2) indent] .
  have source: "statementLines (sourcePrologue screenName b
        @ fst (generateChildren proto rootNodes ''parent'' ''    '' b 0) @ sourceEpilogue b)
      = statementLines (sourcePrologue screenName b)
        @ statementLines (fst (generateChildren proto rootNodes ''parent'' ''    '' b 0))
        @ statementLines (sourceEpilogue b)" for b
    by (simp add: statementLines_append [OF sourcePrologue_ends]
          statementLines_append [OF generated_ends_with_nl(2)])
  show ?thesis
    by (simp add: generateCode_def Let_def source body statementLines_headerText [OF assms(1)]
          statementLines_sourcePrologue [OF assms(1)] statementLines_sourceEpilogue)
qed

text \<open>Witness for C10: a panel with a style property and an unnamed label.\<close>

theorem C10_flag_witness:
  "nl \<notin> set ''main''
   \<and> namesOnOneLine [LvglNode ''p'' ''lv_obj'' ''panel'' [(''bg_color'', PStr ''#112233'')]
                        [LvglNode ''c'' ''lv_label'' [] [(''text'', PStr ''Hi'')] []]]
   \<and> statementLines (sourceContent (fst (generateCode (\<lambda>k. None) 0
         [LvglNode ''p'' ''lv_obj'' ''panel'' [(''bg_color'', PStr ''#112233'')]
            [LvglNode ''c'' ''lv_label'' [] [(''text'', PStr ''Hi'')] []]] ''main'' True)))
     = statementLines (sourceContent (fst (generateCode (\<lambda>k. None) 0
         [LvglNode ''p'' ''lv_obj'' ''panel'' [(''bg_color'', PStr ''#112233'')]
            [LvglNode ''c'' ''lv_label'' [] [(''text'', PStr ''Hi'')] []]] ''main'' False)))"
proof -
  have a: "nl \<notin> set ''main''" by simp
  have b: "namesOnOneLine [LvglNode ''p'' ''lv_obj'' ''panel'' [(''bg_color'', PStr ''#112233'')]
                        [LvglNode ''c'' ''lv_label'' [] [(''text'', PStr ''Hi'')] []]]" by simp
  from C10_flag_adds_only_comment_and_blank_lines [OF a b, of "\<lambda>k. None" 0] a b
  show ?thesis by blast
qed

text \<open>
  Counterexample to C10 as stated: for the empty forest and the screen name \<open>a\<close>, the
  header generated with comments, with its comment lines deleted, is not the header
  generated without comments: the blank lines that follow the banners remain.
\<close>

theorem C10_comment_lines_counterexample:
  "removeCommentLines (headerContent (fst (generateCode (\<lambda>k. None) 0 [] ''a'' True)))
     \<noteq> headerContent (fst (generateCode (\<lambda>k. None) 0 [] ''a'' False))"
  by (simp add: generateCode_def headerText_def Let_def removeCommentLines_def isCommentLine_def
        toUpperCase_def toLowerCase_def lowerLetters_def upperLetters_def)
section \<open>The parser and the serializer on documents\<close>

text \<open>
  The \<open>try\<close> of \<open>parseXmlToNodes\<close>: the function always returns a forest and never
  an error. When the XML library throws on the text, the \<open>catch\<close> returns the empty
  forest, and when the library returns the empty object, as it does for an empty or
  whitespace-only text, the forest is empty.
\<close>

theorem parseXmlToNodes_never_throws:
  "(\<exists>nodes. parseXmlToNodes xml fresh k xmlContent = Inr nodes)
   \<and> (\<forall>e. xml xmlContent = Inl e \<longrightarrow> parseXmlToNodes xml fresh k xmlContent = Inr [])
   \<and> (xml xmlContent = Inr (JObj []) \<longrightarrow> parseXmlToNodes xml fresh k xmlContent = Inr [])"
  by (auto simp: parseXmlToNodes_def tryBlock_def split: sum.splits)

text \<open>
  A reader that returns the empty object for the empty text and for a text of blanks, and
  throws on the unfinished tag \<open><lvgl\<close>.
\<close>

theorem never_throws_example:
  "xmlTable [([], JObj []), (''  '', JObj [])] ''<lvgl'' = Inl (XmlError ''not well-formed'')
   \<and> parseXmlToNodes (xmlTable [([], JObj []), (''  '', JObj [])]) (\<lambda>n. []) 0 ''<lvgl'' = Inr []
   \<and> xmlTable [([], JObj []), (''  '', JObj [])] ''  '' = Inr (JObj [])
   \<and> parseXmlToNodes (xmlTable [([], JObj []), (''  '', JObj [])]) (\<lambda>n. []) 0 ''  '' = Inr []"
  using parseXmlToNodes_never_throws
          [of "xmlTable [([], JObj []), (''  '', JObj [])]" "\<lambda>n. []" 0 "''<lvgl''"]
        parseXmlToNodes_never_throws
          [of "xmlTable [([], JObj []), (''  '', JObj [])]" "\<lambda>n. []" 0 "''  ''"]
  by (simp add: xmlTable_def)

text \<open>
  Claim C4, on the code: the forest is empty for malformed markup only when the library
  throws on it, and the library, which does not validate, throws on little. For the
  document with the unclosed tag of a label it returns an object, and \<open>parseXmlToNodes\<close>
  returns the label, with the rest of the text as a property: not the empty forest.
\<close>

theorem C4_malformed_markup_yields_nodes:
  assumes "xml unclosedTagDocument = Inr unclosedTagParsed"
  shows "parseXmlToNodes xml fresh k unclosedTagDocument
           = Inr [LvglNode ''a'' ''lv_label'' ''label'' [(''</lvgl'', PBool True)] []]
       \<and> parseXmlToNodes xml fresh k unclosedTagDocument \<noteq> Inr []"
proof -
  have "parseXmlToNodes xml fresh k unclosedTagDocument
           = Inr [LvglNode ''a'' ''lv_label'' ''label'' [(''</lvgl'', PBool True)] []]"
    using assms
    by (simp add: parseXmlToNodes_def tryBlock_def unclosedTagParsed_def itemsOf_def)
  then show ?thesis by simp
qed

text \<open>Witness for the run of C4: a reader that knows the document.\<close>

theorem C4_malformed_markup_witness:
  "xmlTable [(unclosedTagDocument, unclosedTagParsed)] unclosedTagDocument
     = Inr unclosedTagParsed
   \<and> parseXmlToNodes (xmlTable [(unclosedTagDocument, unclosedTagParsed)]) (\<lambda>n. []) 0
        unclosedTagDocument
       = Inr [LvglNode ''a'' ''lv_label'' ''label'' [(''</lvgl'', PBool True)] []]
   \<and> parseXmlToNodes (xmlTable [(unclosedTagDocument, unclosedTagParsed)]) (\<lambda>n. []) 0
        unclosedTagDocument \<noteq> Inr []"
proof -
  have reader: "xmlTable [(unclosedTagDocument, unclosedTagParsed)] unclosedTagDocument
     = Inr unclosedTagParsed"
    by (simp add: xmlTable_def)
  from C4_malformed_markup_yields_nodes
         [where xml = "xmlTable [(unclosedTagDocument, unclosedTagParsed)]"
            and fresh = "\<lambda>n. []" and k = 0]
       reader
  show ?thesis by blast
qed

subsection \<open>Attribute values are stored as delivered\<close>

text \<open>
  The property loop of \<open>parseChildren\<close> stores every attribute other than \<open>id\<close> and
  \<open>name\<close> whose value is not an object under its key, with the value unchanged: a
  string stays a string, whatever it looks like.
\<close>

lemma map_of_setProp:
  "map_of (setProp acc k v) k' = (if k' = k then Some v else map_of acc k')"
  by (induction acc) auto

lemma extractProperties_other_keys:
  "k \<notin> fst ` set es \<Longrightarrow> map_of (extractProperties es acc) k = map_of acc k"
proof (induction es arbitrary: acc)
  case Nil
  then show ?case by simp
next
  case (Cons e es)
  obtain k' v where e: "e = (k', v)" by (cases e)
  with Cons.prems have "k' \<noteq> k" and "k \<notin> fst ` set es" by auto
  with Cons.IH show ?case
    unfolding e by (cases "scalarOf v") (simp_all add: map_of_setProp)
qed

lemma extractProperties_stores_scalar:
  assumes "distinct (map fst es)" and "(k, v) \<in> set es"
      and "k \<noteq> ''id''" and "k \<noteq> ''name''" and "scalarOf v = Some p"
  shows "map_of (extractProperties es acc) k = Some p"
  using assms(1,2)
proof (induction es arbitrary: acc)
  case Nil
  then show ?case by simp
next
  case (Cons e es)
  obtain k' v' where e: "e = (k', v')" by (cases e)
  show ?case
  proof (cases "k' = k")
    case True
    with Cons.prems e have v': "v' = v" and "k \<notin> fst ` set es"
      by (auto simp: image_iff)
    then have "map_of (extractProperties es (setProp acc k p)) k = Some p"
      by (simp add: extractProperties_other_keys map_of_setProp)
    with True v' e assms(3-5) show ?thesis by simp
  next
    case False
    with Cons.prems e have "distinct (map fst es)" and "(k, v) \<in> set es" by auto
    then have "map_of (extractProperties es acc') k = Some p" for acc'
      by (rule Cons.IH)
    then show ?thesis
      unfolding e by (cases "scalarOf v'") simp_all
  qed
qed

lemma extractProperties_keeps_string:
  assumes "distinct (map fst es)" and "(k, JStr s) \<in> set es"
      and "k \<noteq> ''id''" and "k \<noteq> ''name''"
  shows "map_of (extractProperties es []) k = Some (PStr s)"
  using assms by (rule extractProperties_stores_scalar) simp

text \<open>
  Claim C2, on the code: \<open>parseChildren\<close> stores an attribute value as the library
  delivers it (\<open>extractProperties_keeps_string\<close>), and the library delivers the value of
  a quoted attribute as a string. For
  the switch document the properties \<open>checked\<close> and \<open>width\<close> are the strings
  \<open>"true"\<close> and \<open>"100"\<close>, not a boolean and a number; since the emitter tests
  \<open>value === true\<close>, the generated source has no \<open>lv_obj_add_state\<close> statement.
\<close>

theorem C2_attribute_values_stay_strings:
  assumes "xml switchDocument = Inr switchParsed" and "proto ''checked'' = None"
  shows "parseXmlToNodes xml fresh k switchDocument
           = Inr [LvglNode ''s'' ''lv_switch'' ''sw''
                    [(''checked'', PStr ''true''), (''width'', PStr ''100'')] []]
       \<and> sourceContent (fst (generateCode proto counter
            [LvglNode ''s'' ''lv_switch'' ''sw''
               [(''checked'', PStr ''true''), (''width'', PStr ''100'')] []] ''main'' False))
           = ''#include '' @ [dq] @ ''main.h'' @ [dq] @ [nl] @ [nl]
             @ ''void main_create(lv_obj_t *parent)'' @ [nl]
             @ ''{'' @ [nl]
             @ ''    lv_obj_t *sw = lv_switch_create(parent);'' @ [nl]
             @ ''    lv_obj_set_pos(sw, 0, 0);'' @ [nl]
             @ ''    lv_obj_set_size(sw, 100, 50);'' @ [nl]
             @ [nl]
             @ ''}'' @ [nl]"
proof
  show "parseXmlToNodes xml fresh k switchDocument
           = Inr [LvglNode ''s'' ''lv_switch'' ''sw''
                    [(''checked'', PStr ''true''), (''width'', PStr ''100'')] []]"
    using assms(1) by (simp add: parseXmlToNodes_def tryBlock_def switchParsed_def itemsOf_def)
  show "sourceContent (fst (generateCode proto counter
            [LvglNode ''s'' ''lv_switch'' ''sw''
               [(''checked'', PStr ''true''), (''width'', PStr ''100'')] []] ''main'' False))
           = ''#include '' @ [dq] @ ''main.h'' @ [dq] @ [nl] @ [nl]
             @ ''void main_create(lv_obj_t *parent)'' @ [nl]
             @ ''{'' @ [nl]
             @ ''    lv_obj_t *sw = lv_switch_create(parent);'' @ [nl]
             @ ''    lv_obj_set_pos(sw, 0, 0);'' @ [nl]
             @ ''    lv_obj_set_size(sw, 100, 50);'' @ [nl]
             @ [nl]
             @ ''}'' @ [nl]"
    using assms(2)
    by (simp add: generateCode_def sourcePrologue_def sourceEpilogue_def Let_def
          toLowerCase_def upperLetters_def lowerLetters_def
          getComponentByType_def lvglComponents_def mkComponent_def variableName_def
          geometryArg_def propertyStatement_def getStyleSetter_def tableLookup_def styleMap_def
          componentSpecific_def)
qed

text \<open>Witness for the run of C2: a reader that knows the switch document.\<close>

theorem C2_strings_witness:
  "xmlTable [(switchDocument, switchParsed)] switchDocument = Inr switchParsed
   \<and> parseXmlToNodes (xmlTable [(switchDocument, switchParsed)]) (\<lambda>n. []) 0 switchDocument
       = Inr [LvglNode ''s'' ''lv_switch'' ''sw''
                [(''checked'', PStr ''true''), (''width'', PStr ''100'')] []]"
proof -
  have reads: "xmlTable [(switchDocument, switchParsed)] switchDocument = Inr switchParsed"
    by (simp add: xmlTable_def)
  from C2_attribute_values_stay_strings
         [where xml = "xmlTable [(switchDocument, switchParsed)]" and proto = "\<lambda>k. None"
            and fresh = "\<lambda>n. []" and k = 0 and counter = 0] reads
  show ?thesis by simp
qed

text \<open>
  Claim C1, on the code: \<open>nodeToXml\<close> writes \<open>id\<close> and \<open>name\<close> between double
  quotes without replacing the double quotes inside them, as it does for string
  properties. The forest parsed from the quoted-name document has one label named
  \<open>x" y="1\<close>; its serialization carries \<open>name="x" y="1"\<close>, and parsing that gives a
  label named \<open>x\<close> with a property \<open>y\<close>: another forest.
\<close>

theorem C1_round_trip_changes_quoted_name:
  assumes "xml quotedNameDocument = Inr quotedNameParsed"
      and "xml quotedNameSerialized = Inr quotedNameReparsed"
  shows "parseXmlToNodes xml fresh k quotedNameDocument
           = Inr [LvglNode ''a'' ''lv_label'' quotedName [] []]
       \<and> nodesToXml [LvglNode ''a'' ''lv_label'' quotedName [] []] = quotedNameSerialized
       \<and> parseXmlToNodes xml fresh k' (nodesToXml [LvglNode ''a'' ''lv_label'' quotedName [] []])
           = Inr [LvglNode ''a'' ''lv_label'' ''x'' [(''y'', PStr ''1'')] []]
       \<and> [LvglNode ''a'' ''lv_label'' ''x'' [(''y'', PStr ''1'')] []]
           \<noteq> [LvglNode ''a'' ''lv_label'' quotedName [] []]"
proof -
  have first: "parseXmlToNodes xml fresh k quotedNameDocument
           = Inr [LvglNode ''a'' ''lv_label'' quotedName [] []]"
    using assms(1)
    by (simp add: parseXmlToNodes_def tryBlock_def quotedNameParsed_def itemsOf_def
          quotedName_def)
  have serial: "nodesToXml [LvglNode ''a'' ''lv_label'' quotedName [] []] = quotedNameSerialized"
    by (simp add: nodesToXml_def quotedNameSerialized_def quotedName_def)
  have second: "parseXmlToNodes xml fresh k' quotedNameSerialized
           = Inr [LvglNode ''a'' ''lv_label'' ''x'' [(''y'', PStr ''1'')] []]"
    using assms(2)
    by (simp add: parseXmlToNodes_def tryBlock_def quotedNameReparsed_def itemsOf_def)
  have differ: "[LvglNode ''a'' ''lv_label'' ''x'' [(''y'', PStr ''1'')] []]
           \<noteq> [LvglNode ''a'' ''lv_label'' quotedName [] []]"
    by simp
  from first serial second differ show ?thesis by (simp only: simp_thms)
qed

text \<open>Witness for the run of C1: a reader that knows the two documents.\<close>

theorem C1_round_trip_witness:
  "xmlTable [(quotedNameDocument, quotedNameParsed), (quotedNameSerialized, quotedNameReparsed)]
     quotedNameDocument = Inr quotedNameParsed
   \<and> xmlTable [(quotedNameDocument, quotedNameParsed), (quotedNameSerialized, quotedNameReparsed)]
     quotedNameSerialized = Inr quotedNameReparsed
   \<and> parseXmlToNodes
        (xmlTable [(quotedNameDocument, quotedNameParsed),
                   (quotedNameSerialized, quotedNameReparsed)]) (\<lambda>n. []) 0
        (nodesToXml [LvglNode ''a'' ''lv_label'' quotedName [] []])
       = Inr [LvglNode ''a'' ''lv_label'' ''x'' [(''y'', PStr ''1'')] []]"
proof -
  have one: "xmlTable [(quotedNameDocument, quotedNameParsed),
                       (quotedNameSerialized, quotedNameReparsed)]
     quotedNameDocument = Inr quotedNameParsed"
    by (simp add: xmlTable_def)
  have two: "xmlTable [(quotedNameDocument, quotedNameParsed),
                       (quotedNameSerialized, quotedNameReparsed)]
     quotedNameSerialized = Inr quotedNameReparsed"
    by (simp add: xmlTable_def quotedNameDocument_def quotedNameSerialized_def)
  from C1_round_trip_changes_quoted_name [OF one two, of "\<lambda>n. []" 0 0] one two
  show ?thesis by blast
qed

text \<open>
  The prefix of the type: \<open>nodeToXml\<close> removes the first \<open>lv_\<close> of the type, and
  \<open>parseChildren\<close> adds the prefix only to a tag that does not start with it. For the
  type \<open>lv_lv_obj\<close> the serialization has the tag \<open>lv_obj\<close>; parsing it gives the
  type \<open>lv_obj\<close>, whose serialization has the tag \<open>obj\<close>: another text.
\<close>

theorem double_prefix_changes_reserialization:
  assumes "xml doublePrefixDocument = Inr doublePrefixParsed"
      and "xml doublePrefixSerialized = Inr doublePrefixReparsed"
  shows "parseXmlToNodes xml fresh k doublePrefixDocument
           = Inr [LvglNode ''a'' ''lv_lv_obj'' ''lv_lv_obj'' [] []]
       \<and> nodesToXml [LvglNode ''a'' ''lv_lv_obj'' ''lv_lv_obj'' [] []] = doublePrefixSerialized
       \<and> parseXmlToNodes xml fresh k'
            (nodesToXml [LvglNode ''a'' ''lv_lv_obj'' ''lv_lv_obj'' [] []])
           = Inr [LvglNode ''a'' ''lv_obj'' ''lv_lv_obj'' [] []]
       \<and> nodesToXml [LvglNode ''a'' ''lv_obj'' ''lv_lv_obj'' [] []]
           \<noteq> nodesToXml [LvglNode ''a'' ''lv_lv_obj'' ''lv_lv_obj'' [] []]"
proof -
  have first: "parseXmlToNodes xml fresh k doublePrefixDocument
           = Inr [LvglNode ''a'' ''lv_lv_obj'' ''lv_lv_obj'' [] []]"
    using assms(1)
    by (simp add: parseXmlToNodes_def tryBlock_def doublePrefixParsed_def itemsOf_def)
  have serial: "nodesToXml [LvglNode ''a'' ''lv_lv_obj'' ''lv_lv_obj'' [] []]
      = doublePrefixSerialized"
    by (simp add: nodesToXml_def doublePrefixSerialized_def)
  have second: "parseXmlToNodes xml fresh k' doublePrefixSerialized
           = Inr [LvglNode ''a'' ''lv_obj'' ''lv_lv_obj'' [] []]"
    using assms(2)
    by (simp add: parseXmlToNodes_def tryBlock_def doublePrefixReparsed_def itemsOf_def)
  have differ: "nodesToXml [LvglNode ''a'' ''lv_obj'' ''lv_lv_obj'' [] []]
           \<noteq> doublePrefixSerialized"
    by (simp add: nodesToXml_def doublePrefixSerialized_def)
  from first serial second differ show ?thesis by (simp only: simp_thms)
qed

text \<open>The same run with a reader that knows the two documents.\<close>

theorem double_prefix_example:
  "xmlTable [(doublePrefixDocument, doublePrefixParsed),
             (doublePrefixSerialized, doublePrefixReparsed)]
     doublePrefixDocument = Inr doublePrefixParsed
   \<and> xmlTable [(doublePrefixDocument, doublePrefixParsed),
               (doublePrefixSerialized, doublePrefixReparsed)]
     doublePrefixSerialized = Inr doublePrefixReparsed
   \<and> parseXmlToNodes
        (xmlTable [(doublePrefixDocument, doublePrefixParsed),
                   (doublePrefixSerialized, doublePrefixReparsed)]) (\<lambda>n. []) 0
        (nodesToXml [LvglNode ''a'' ''lv_lv_obj'' ''lv_lv_obj'' [] []])
       = Inr [LvglNode ''a'' ''lv_obj'' ''lv_lv_obj'' [] []]"
proof -
  have one: "xmlTable [(doublePrefixDocument, doublePrefixParsed),
                       (doublePrefixSerialized, doublePrefixReparsed)]
     doublePrefixDocument = Inr doublePrefixParsed"
    by (simp add: xmlTable_def)
  have two: "xmlTable [(doublePrefixDocument, doublePrefixParsed),
                       (doublePrefixSerialized, doublePrefixReparsed)]
     doublePrefixSerialized = Inr doublePrefixReparsed"
    by (simp add: xmlTable_def doublePrefixDocument_def doublePrefixSerialized_def)
  from double_prefix_changes_reserialization [OF one two, of "\<lambda>n. []" 0 0] one two
  show ?thesis by blast
qed

text \<open>
  Claim C9, on the code: \<open>parseChildren\<close> gives a node without a \<open>name\<close> attribute
  the tag as its name, so the emitter, which generates a numbered name only for an empty
  name, takes the tag. The two labels of the document both get the variable name
  \<open>label\<close>, not \<open>label_1\<close> and \<open>label_2\<close>. The numbered names appear
  when the names of the same two nodes are empty.
\<close>

theorem C9_unnamed_siblings_share_the_tag_name:
  assumes "xml twoLabelsDocument = Inr twoLabelsParsed" and "proto ''text'' = None"
  shows "parseXmlToNodes xml fresh k twoLabelsDocument
           = Inr [LvglNode ''a'' ''lv_label'' ''label'' [(''text'', PStr ''A'')] [],
                  LvglNode ''b'' ''lv_label'' ''label'' [(''text'', PStr ''B'')] []]
       \<and> sourceContent (fst (generateCode proto counter
            [LvglNode ''a'' ''lv_label'' ''label'' [(''text'', PStr ''A'')] [],
             LvglNode ''b'' ''lv_label'' ''label'' [(''text'', PStr ''B'')] []] ''main'' False))
           = ''#include '' @ [dq] @ ''main.h'' @ [dq] @ [nl] @ [nl]
             @ ''void main_create(lv_obj_t *parent)'' @ [nl]
             @ ''{'' @ [nl]
             @ ''    lv_obj_t *label = lv_label_create(parent);'' @ [nl]
             @ ''    lv_obj_set_pos(label, 0, 0);'' @ [nl]
             @ ''    lv_obj_set_size(label, 100, 50);'' @ [nl]
             @ ''    lv_label_set_text(label, '' @ [dq] @ ''A'' @ [dq] @ '');'' @ [nl]
             @ [nl]
             @ ''    lv_obj_t *label = lv_label_create(parent);'' @ [nl]
             @ ''    lv_obj_set_pos(label, 0, 0);'' @ [nl]
             @ ''    lv_obj_set_size(label, 100, 50);'' @ [nl]
             @ ''    lv_label_set_text(label, '' @ [dq] @ ''B'' @ [dq] @ '');'' @ [nl]
             @ [nl]
             @ ''}'' @ [nl]
       \<and> sourceContent (fst (generateCode proto counter
            [LvglNode ''a'' ''lv_label'' [] [(''text'', PStr ''A'')] [],
             LvglNode ''b'' ''lv_label'' [] [(''text'', PStr ''B'')] []] ''main'' False))
           = ''#include '' @ [dq] @ ''main.h'' @ [dq] @ [nl] @ [nl]
             @ ''void main_create(lv_obj_t *parent)'' @ [nl]
             @ ''{'' @ [nl]
             @ ''    lv_obj_t *label_1 = lv_label_create(parent);'' @ [nl]
             @ ''    lv_obj_set_pos(label_1, 0, 0);'' @ [nl]
             @ ''    lv_obj_set_size(label_1, 100, 50);'' @ [nl]
             @ ''    lv_label_set_text(label_1, '' @ [dq] @ ''A'' @ [dq] @ '');'' @ [nl]
             @ [nl]
             @ ''    lv_obj_t *label_2 = lv_label_create(parent);'' @ [nl]
             @ ''    lv_obj_set_pos(label_2, 0, 0);'' @ [nl]
             @ ''    lv_obj_set_size(label_2, 100, 50);'' @ [nl]
             @ ''    lv_label_set_text(label_2, '' @ [dq] @ ''B'' @ [dq] @ '');'' @ [nl]
             @ [nl]
             @ ''}'' @ [nl]"
proof (intro conjI)
  show "parseXmlToNodes xml fresh k twoLabelsDocument
           = Inr [LvglNode ''a'' ''lv_label'' ''label'' [(''text'', PStr ''A'')] [],
                  LvglNode ''b'' ''lv_label'' ''label'' [(''text'', PStr ''B'')] []]"
    using assms(1)
    by (simp add: parseXmlToNodes_def tryBlock_def twoLabelsParsed_def itemsOf_def)
  show "sourceContent (fst (generateCode proto counter
            [LvglNode ''a'' ''lv_label'' ''label'' [(''text'', PStr ''A'')] [],
             LvglNode ''b'' ''lv_label'' ''label'' [(''text'', PStr ''B'')] []] ''main'' False))
           = ''#include '' @ [dq] @ ''main.h'' @ [dq] @ [nl] @ [nl]
             @ ''void main_create(lv_obj_t *parent)'' @ [nl]
             @ ''{'' @ [nl]
             @ ''    lv_obj_t *label = lv_label_create(parent);'' @ [nl]
             @ ''    lv_obj_set_pos(label, 0, 0);'' @ [nl]
             @ ''    lv_obj_set_size(label, 100, 50);'' @ [nl]
             @ ''    lv_label_set_text(label, '' @ [dq] @ ''A'' @ [dq] @ '');'' @ [nl]
             @ [nl]
             @ ''    lv_obj_t *label = lv_label_create(parent);'' @ [nl]
             @ ''    lv_obj_set_pos(label, 0, 0);'' @ [nl]
             @ ''    lv_obj_set_size(label, 100, 50);'' @ [nl]
             @ ''    lv_label_set_text(label, '' @ [dq] @ ''B'' @ [dq] @ '');'' @ [nl]
             @ [nl]
             @ ''}'' @ [nl]"
    using assms(2)
    by (simp add: generateCode_def sourcePrologue_def sourceEpilogue_def Let_def
          toLowerCase_def upperLetters_def lowerLetters_def
          getComponentByType_def lvglComponents_def mkComponent_def variableName_def
          geometryArg_def propertyStatement_def getStyleSetter_def tableLookup_def styleMap_def
          componentSpecific_def propertyToCode_def replaceAllChar_def)
  show "sourceContent (fst (generateCode proto counter
            [LvglNode ''a'' ''lv_label'' [] [(''text'', PStr ''A'')] [],
             LvglNode ''b'' ''lv_label'' [] [(''text'', PStr ''B'')] []] ''main'' False))
           = ''#include '' @ [dq] @ ''main.h'' @ [dq] @ [nl] @ [nl]
             @ ''void main_create(lv_obj_t *parent)'' @ [nl]
             @ ''{'' @ [nl]
             @ ''    lv_obj_t *label_1 = lv_label_create(parent);'' @ [nl]
             @ ''    lv_obj_set_pos(label_1, 0, 0);'' @ [nl]
             @ ''    lv_obj_set_size(label_1, 100, 50);'' @ [nl]
             @ ''    lv_label_set_text(label_1, '' @ [dq] @ ''A'' @ [dq] @ '');'' @ [nl]
             @ [nl]
             @ ''    lv_obj_t *label_2 = lv_label_create(parent);'' @ [nl]
             @ ''    lv_obj_set_pos(label_2, 0, 0);'' @ [nl]
             @ ''    lv_obj_set_size(label_2, 100, 50);'' @ [nl]
             @ ''    lv_label_set_text(label_2, '' @ [dq] @ ''B'' @ [dq] @ '');'' @ [nl]
             @ [nl]
             @ ''}'' @ [nl]"
    using assms(2)
    by (simp add: generateCode_def sourcePrologue_def sourceEpilogue_def Let_def
          toLowerCase_def upperLetters_def lowerLetters_def
          getComponentByType_def lvglComponents_def mkComponent_def variableName_def
          geometryArg_def propertyStatement_def getStyleSetter_def tableLookup_def styleMap_def
          componentSpecific_def propertyToCode_def replaceAllChar_def
          natToString.simps digitChar_def)
qed

text \<open>Witness for the run of C9: a reader that knows the document of the two labels.\<close>

theorem C9_unnamed_siblings_witness:
  "xmlTable [(twoLabelsDocument, twoLabelsParsed)] twoLabelsDocument = Inr twoLabelsParsed
   \<and> parseXmlToNodes (xmlTable [(twoLabelsDocument, twoLabelsParsed)]) (\<lambda>n. []) 0
        twoLabelsDocument
       = Inr [LvglNode ''a'' ''lv_label'' ''label'' [(''text'', PStr ''A'')] [],
              LvglNode ''b'' ''lv_label'' ''label'' [(''text'', PStr ''B'')] []]"
proof -
  have reads: "xmlTable [(twoLabelsDocument, twoLabelsParsed)] twoLabelsDocument
      = Inr twoLabelsParsed"
    by (simp add: xmlTable_def)
  from C9_unnamed_siblings_share_the_tag_name
         [where xml = "xmlTable [(twoLabelsDocument, twoLabelsParsed)]" and proto = "\<lambda>k. None"
            and fresh = "\<lambda>n. []" and k = 0 and counter = 0] reads
  show ?thesis by simp
qed

section \<open>Serializing, parsing and serializing again\<close>

subsection \<open>Tags and types\<close>

lemma startsWith_decompose: "startsWith s p \<Longrightarrow> p @ drop (length p) s = s"
  by (induction s p rule: startsWith.induct) simp_all

lemma replaceFirst_prefix:
  "startsWith s p \<Longrightarrow> s \<noteq> [] \<Longrightarrow> replaceFirst p [] s = drop (length p) s"
  by (cases s) simp_all

lemma tagOf_prefixed:
  assumes "startsWith t ''lv_''"
  shows "tagOf (LvglNode i t n props cs) = drop 3 t" and "''lv_'' @ drop 3 t = t"
proof -
  from assms have "t \<noteq> []" by (cases t) simp_all
  with assms show "tagOf (LvglNode i t n props cs) = drop 3 t"
    by (simp add: tagOf_def replaceFirst_prefix eval_nat_numeral)
  from startsWith_decompose [OF assms] show "''lv_'' @ drop 3 t = t"
    by (simp add: eval_nat_numeral)
qed

lemma readableNode_tag: "readableNode c \<Longrightarrow> elementTag (tagOf c)"
  by (cases c) (simp add: tagOf_prefixed)

lemma readableNodes_iff: "readableNodes cs \<longleftrightarrow> (\<forall>c \<in> set cs. readableNode c)"
  by (induction cs) simp_all

subsection \<open>Grouping\<close>

lemma groupedTags_tail: "groupedTags (t # ts) \<Longrightarrow> groupedTags ts"
  by (cases ts) simp_all

lemma groupedTags_Cons:
  "groupedTags ts \<Longrightarrow> ts = [] \<or> t = hd ts \<or> t \<notin> set ts \<Longrightarrow> groupedTags (t # ts)"
  by (cases ts) auto

lemma groupedTags_filter: "groupedTags ts \<Longrightarrow> groupedTags (filter (\<lambda>u. u \<noteq> a) ts)"
proof (induction ts rule: groupedTags.induct)
  case 1
  then show ?case by simp
next
  case (2 t)
  then show ?case by simp
next
  case (3 t u ts)
  then have ih: "groupedTags (filter (\<lambda>u. u \<noteq> a) (u # ts))" by simp
  show ?case
  proof (cases "t = a")
    case True
    with ih show ?thesis by simp
  next
    case False
    have "filter (\<lambda>u. u \<noteq> a) (u # ts) = [] \<or> t = hd (filter (\<lambda>u. u \<noteq> a) (u # ts))
        \<or> t \<notin> set (filter (\<lambda>u. u \<noteq> a) (u # ts))"
      using "3.prems" False by auto
    with ih have "groupedTags (t # filter (\<lambda>u. u \<noteq> a) (u # ts))"
      by (rule groupedTags_Cons)
    with False show ?thesis by simp
  qed
qed

lemma groupedTags_split:
  "groupedTags (a # ts) \<Longrightarrow> filter (\<lambda>u. u = a) ts @ filter (\<lambda>u. u \<noteq> a) ts = ts"
proof (induction ts)
  case Nil
  then show ?case by simp
next
  case (Cons u ts)
  show ?case
  proof (cases "u = a")
    case True
    with Cons.prems have "groupedTags (a # ts)" by (cases ts) auto
    with Cons.IH True show ?thesis by simp
  next
    case False
    with Cons.prems have "a \<notin> set (u # ts)" by simp
    then have "filter (\<lambda>u. u = a) (u # ts) = []" and "filter (\<lambda>u. u \<noteq> a) (u # ts) = u # ts"
      by (auto simp: filter_empty_conv filter_id_conv)
    then show ?thesis by simp
  qed
qed

lemma grouped_nodes_split:
  assumes "groupedTags (map f (c # rest))"
  shows "filter (\<lambda>x. f x = f c) rest @ filter (\<lambda>x. f x \<noteq> f c) rest = rest"
  using assms
proof (induction rest)
  case Nil
  then show ?case by simp
next
  case (Cons x rest)
  show ?case
  proof (cases "f x = f c")
    case True
    with Cons.prems have "groupedTags (map f (c # rest))" by (cases rest) auto
    with Cons.IH True show ?thesis by simp
  next
    case False
    with Cons.prems have "f c \<notin> set (map f (x # rest))" by auto
    then have "\<forall>y \<in> set (x # rest). f y \<noteq> f c"
      by (metis imageI list.set_map)
    then have "filter (\<lambda>x. f x = f c) (x # rest) = []"
      and "filter (\<lambda>x. f x \<noteq> f c) (x # rest) = x # rest"
      by (simp_all add: filter_empty_conv filter_id_conv)
    then show ?thesis by simp
  qed
qed

lemma grouped_nodes_filter:
  assumes "groupedTags (map f xs)"
  shows "groupedTags (map f (filter (\<lambda>x. f x \<noteq> a) xs))"
proof -
  have "map f (filter (\<lambda>x. f x \<noteq> a) xs) = filter (\<lambda>u. u \<noteq> a) (map f xs)"
    by (simp add: filter_map comp_def)
  with groupedTags_filter [OF assms, of a] show ?thesis by simp
qed

lemma isObject_wrapGroup: "isObject v \<Longrightarrow> isObject (wrapGroup (v # vs))"
  by (cases vs) simp_all

lemma groupEntries_objects:
  "\<forall>e \<in> set es. isObject (snd e) \<Longrightarrow> \<forall>e \<in> set (groupEntries es). isObject (snd e)"
proof (induction es rule: groupEntries.induct)
  case 1
  then show ?case by simp
next
  case (2 k v rest)
  then show ?case by (simp add: isObject_wrapGroup)
qed

lemma groupEntries_keys: "fst ` set (groupEntries es) = fst ` set es"
proof (induction es rule: groupEntries.induct)
  case 1
  then show ?case by simp
next
  case (2 k v rest)
  have "fst ` set rest = fst ` set (filter (\<lambda>e. fst e \<noteq> k) rest) \<union> (fst ` set rest \<inter> {k})"
    by auto
  with 2 show ?case by auto
qed

lemma isObject_elementObject: "isObject (elementObject c)"
  by (cases c) simp

lemma itemsOf_wrapGroup:
  "itemsOf (wrapGroup (elementObject c # map elementObject cs)) = elementObject c # map elementObject cs"
proof (cases cs)
  case Nil
  then show ?thesis by (cases c) (simp add: itemsOf_def)
next
  case (Cons x xs)
  then show ?thesis by (simp add: itemsOf_def)
qed

subsection \<open>The property loop on the attributes read back\<close>

lemma setProp_new: "k \<notin> fst ` set acc \<Longrightarrow> setProp acc k v = acc @ [(k, v)]"
  by (induction acc) auto

lemma extractProperties_append:
  "extractProperties (es1 @ es2) acc = extractProperties es2 (extractProperties es1 acc)"
proof (induction es1 arbitrary: acc)
  case Nil
  then show ?case by simp
next
  case (Cons e es1)
  obtain k v where "e = (k, v)" by (cases e)
  with Cons show ?case by (simp split: option.splits)
qed

lemma scalarOf_object: "isObject v \<Longrightarrow> scalarOf v = None"
  by (cases v) simp_all

lemma extractProperties_objects:
  "\<forall>e \<in> set es. isObject (snd e) \<Longrightarrow> extractProperties es acc = acc"
proof (induction es arbitrary: acc)
  case Nil
  then show ?case by simp
next
  case (Cons e es)
  obtain k v where "e = (k, v)" by (cases e)
  with Cons show ?case by (simp add: scalarOf_object)
qed

lemma extractProperties_strings:
  assumes "distinct (map fst ps)" and "''id'' \<notin> fst ` set ps" and "''name'' \<notin> fst ` set ps"
      and "fst ` set acc \<inter> fst ` set ps = {}"
  shows "extractProperties (map (\<lambda>e. (fst e, JStr (valueToString (snd e)))) ps) acc
           = acc @ map (\<lambda>e. (fst e, PStr (valueToString (snd e)))) ps"
  using assms
proof (induction ps arbitrary: acc)
  case Nil
  then show ?case by simp
next
  case (Cons p ps)
  from Cons.prems have new: "fst p \<notin> fst ` set acc" by auto
  have disjoint: "fst ` set (acc @ [(fst p, PStr (valueToString (snd p)))]) \<inter> fst ` set ps = {}"
    using Cons.prems by auto
  have "extractProperties (map (\<lambda>e. (fst e, JStr (valueToString (snd e)))) ps)
          (acc @ [(fst p, PStr (valueToString (snd p)))])
      = (acc @ [(fst p, PStr (valueToString (snd p)))])
          @ map (\<lambda>e. (fst e, PStr (valueToString (snd e)))) ps"
    using Cons.prems disjoint by (intro Cons.IH) auto
  with Cons.prems new show ?case by (auto simp: setProp_new)
qed

subsection \<open>The loops of parseChildren on the elements read back\<close>

lemma parseItems_scalar: "\<not> isObject v \<Longrightarrow> parseItems fresh key (itemsOf v) k = ([], k)"
  by (cases v) (simp_all add: itemsOf_def)

lemma parseEntries_scalars:
  "\<forall>e \<in> set es. \<not> isObject (snd e) \<Longrightarrow> parseEntries fresh es k = ([], k)"
proof (induction es)
  case Nil
  then show ?case by simp
next
  case (Cons e es)
  obtain key v where "e = (key, v)" by (cases e)
  with Cons show ?case by (simp add: parseItems_scalar)
qed

lemma parseEntries_append:
  "parseEntries fresh (es1 @ es2) k
     = (fst (parseEntries fresh es1 k)
          @ fst (parseEntries fresh es2 (snd (parseEntries fresh es1 k))),
        snd (parseEntries fresh es2 (snd (parseEntries fresh es1 k))))"
proof (induction es1 arbitrary: k)
  case Nil
  then show ?case by simp
next
  case (Cons e es1)
  obtain key v where "e = (key, v)" by (cases e)
  with Cons show ?case by (simp add: Let_def)
qed

lemma parseEntries_element_key:
  assumes "elementTag key"
  shows "parseEntries fresh ((key, v) # rest) k
     = (fst (parseItems fresh key (itemsOf v) k)
          @ fst (parseEntries fresh rest (snd (parseItems fresh key (itemsOf v) k))),
        snd (parseEntries fresh rest (snd (parseItems fresh key (itemsOf v) k))))"
  using assms by (simp add: elementTag_def Let_def)

text \<open>The elements of one tag, each read back as the node it was written from.\<close>

declare parseItems.simps(2) [simp del]

lemma parseItems_run:
  assumes "\<And>c items k. c \<in> set run \<Longrightarrow>
             parseItems fresh key (elementObject c # items) k
               = (asRead c # fst (parseItems fresh key items k),
                  snd (parseItems fresh key items k))"
  shows "parseItems fresh key (map elementObject run) k = (map asRead run, k)"
  using assms
proof (induction run)
  case Nil
  then show ?case by simp
next
  case (Cons c run)
  have "parseItems fresh key (map elementObject run) k = (map asRead run, k)"
  proof (rule Cons.IH)
    fix x items k'
    assume "x \<in> set run"
    then have "x \<in> set (c # run)" by simp
    then show "parseItems fresh key (elementObject x # items) k'
        = (asRead x # fst (parseItems fresh key items k'), snd (parseItems fresh key items k'))"
      by (rule Cons.prems)
  qed
  moreover have "parseItems fresh key (elementObject c # map elementObject run) k
      = (asRead c # fst (parseItems fresh key (map elementObject run) k),
         snd (parseItems fresh key (map elementObject run) k))"
    by (rule Cons.prems) simp
  ultimately show ?case by simp
qed

text \<open>The grouped children of an element, read back in the order they were written.\<close>

lemma parseEntries_groups:
  assumes "\<And>c items k. c \<in> set cs \<Longrightarrow>
             parseItems fresh (tagOf c) (elementObject c # items) k
               = (asRead c # fst (parseItems fresh (tagOf c) items k),
                  snd (parseItems fresh (tagOf c) items k))"
      and "\<forall>c \<in> set cs. elementTag (tagOf c)"
      and "groupedTags (map tagOf cs)"
  shows "parseEntries fresh (groupEntries (map (\<lambda>c. (tagOf c, elementObject c)) cs)) k
           = (map asRead cs, k)"
  using assms
proof (induction cs rule: length_induct)
  case (1 cs)
  show ?case
  proof (cases cs)
    case Nil
    then show ?thesis by simp
  next
    case (Cons c rest)
    let ?same = "filter (\<lambda>x. tagOf x = tagOf c) rest"
    let ?others = "filter (\<lambda>x. tagOf x \<noteq> tagOf c) rest"
    let ?h = "\<lambda>c. (tagOf c, elementObject c)"
    have same: "map snd (filter (\<lambda>e. fst e = tagOf c) (map ?h rest)) = map elementObject ?same"
      by (simp add: filter_map comp_def)
    have others: "filter (\<lambda>e. fst e \<noteq> tagOf c) (map ?h rest) = map ?h ?others"
      by (simp add: filter_map comp_def)
    have grouped: "groupEntries (map ?h cs)
        = (tagOf c, wrapGroup (elementObject c # map elementObject ?same))
            # groupEntries (map ?h ?others)"
      unfolding Cons by (simp add: same others)
    have tag: "elementTag (tagOf c)" using "1.prems"(2) Cons by simp
    have run: "parseItems fresh (tagOf c) (map elementObject (c # ?same)) k
        = (map asRead (c # ?same), k)"
    proof (rule parseItems_run)
      fix x items k'
      assume "x \<in> set (c # ?same)"
      then have "x \<in> set cs" and "tagOf x = tagOf c" using Cons by auto
      with "1.prems"(1) [of x items k']
      show "parseItems fresh (tagOf c) (elementObject x # items) k'
          = (asRead x # fst (parseItems fresh (tagOf c) items k'),
             snd (parseItems fresh (tagOf c) items k'))"
        by simp
    qed
    have "length ?others < length cs" using Cons by (simp add: less_Suc_eq_le)
    moreover have "\<And>x items k. x \<in> set ?others \<Longrightarrow>
             parseItems fresh (tagOf x) (elementObject x # items) k
               = (asRead x # fst (parseItems fresh (tagOf x) items k),
                  snd (parseItems fresh (tagOf x) items k))"
      using "1.prems"(1) Cons by simp
    moreover have "\<forall>x \<in> set ?others. elementTag (tagOf x)"
      using "1.prems"(2) Cons by simp
    moreover have "groupedTags (map tagOf ?others)"
    proof -
      from "1.prems"(3) Cons have "groupedTags (map tagOf rest)"
        by (simp add: groupedTags_tail)
      then show ?thesis by (rule grouped_nodes_filter)
    qed
    ultimately have rest: "parseEntries fresh (groupEntries (map ?h ?others)) k
        = (map asRead ?others, k)"
      using "1.IH" by blast
    have split: "?same @ ?others = rest"
      using "1.prems"(3) unfolding Cons by (rule grouped_nodes_split)
    have "parseEntries fresh (groupEntries (map ?h cs)) k
        = (map asRead (c # ?same) @ map asRead ?others, k)"
      unfolding grouped parseEntries_element_key [OF tag] itemsOf_wrapGroup
      using run rest by simp
    also have "map asRead (c # ?same) @ map asRead ?others = map asRead (c # (?same @ ?others))"
      by simp
    finally show ?thesis unfolding split Cons .
  qed
qed

subsection \<open>One element read back\<close>

lemma readableNode_parseItems:
  "readableNode c \<Longrightarrow>
   parseItems fresh (tagOf c) (elementObject c # items) k
     = (asRead c # fst (parseItems fresh (tagOf c) items k),
        snd (parseItems fresh (tagOf c) items k))"
proof (induction c arbitrary: fresh items k)
  case (LvglNode i t n props cs)
  let ?tag = "drop 3 t"
  let ?h = "\<lambda>c. (tagOf c, elementObject c)"
  let ?groups = "groupEntries (map ?h cs)"
  let ?attrs = "map (\<lambda>e. (fst e, JStr (valueToString (snd e)))) props"
  let ?entries = "?groups @ [(''id'', JStr i), (''name'', JStr n)] @ ?attrs"
  from LvglNode.prems have i: "i \<noteq> []" and n: "n \<noteq> []" and t: "startsWith t ''lv_''"
    and tag: "elementTag ?tag" and keys: "distinct (map fst props)"
    and no_id: "''id'' \<notin> fst ` set props" and no_name: "''name'' \<notin> fst ` set props"
    and grouped: "groupedTags (map tagOf cs)" and kids: "readableNodes cs"
    by simp_all
  have tagOf: "tagOf (LvglNode i t n props cs) = ?tag" and type: "''lv_'' @ ?tag = t"
    using t by (rule tagOf_prefixed)+
  have child_tags: "\<forall>c \<in> set cs. elementTag (tagOf c)"
    using kids by (simp add: readableNodes_iff readableNode_tag)
  have group_keys: "fst ` set ?groups = tagOf ` set cs"
    by (simp add: groupEntries_keys image_image)
  have no_id_group: "''id'' \<notin> fst ` set ?groups"
    using child_tags unfolding group_keys by (auto simp: elementTag_def)
  have no_name_group: "''name'' \<notin> fst ` set ?groups"
    using child_tags unfolding group_keys by (auto simp: elementTag_def)
  have group_objects: "\<forall>e \<in> set ?groups. isObject (snd e)"
    by (rule groupEntries_objects) (simp add: isObject_elementObject)
  define obj where "obj = JObj ?entries"
  have element: "elementObject (LvglNode i t n props cs) = obj"
    by (simp add: obj_def)
  have object: "isObject obj" and entries: "js_entries obj = ?entries"
    by (simp_all add: obj_def)
  have "map_of ?groups ''id'' = None"
    using no_id_group by (simp only: map_of_eq_None_iff not_False_eq_True)
  then have id: "getProp obj ''id'' = Some (JStr i)"
    by (simp add: obj_def map_add_def)
  have "map_of ?groups ''name'' = None"
    using no_name_group by (simp only: map_of_eq_None_iff not_False_eq_True)
  then have name: "getProp obj ''name'' = Some (JStr n)"
    by (simp add: obj_def map_add_def)
  have properties: "extractProperties (js_entries obj) []
      = map (\<lambda>e. (fst e, PStr (valueToString (snd e)))) props"
  proof -
    have "extractProperties ?groups [] = []"
      using group_objects by (rule extractProperties_objects)
    moreover have "extractProperties ?attrs []
        = [] @ map (\<lambda>e. (fst e, PStr (valueToString (snd e)))) props"
      using keys no_id no_name by (rule extractProperties_strings) simp
    ultimately show ?thesis by (simp add: entries extractProperties_append)
  qed
  have children: "parseChildren fresh obj k = (map asRead cs, k)"
  proof -
    have "parseEntries fresh ?groups k = (map asRead cs, k)"
    proof (rule parseEntries_groups)
      fix c items k'
      assume c: "c \<in> set cs"
      with kids have "readableNode c" by (simp add: readableNodes_iff)
      with c show "parseItems fresh (tagOf c) (elementObject c # items) k'
          = (asRead c # fst (parseItems fresh (tagOf c) items k'),
             snd (parseItems fresh (tagOf c) items k'))"
        by (rule LvglNode.IH)
    qed (rule child_tags, rule grouped)
    moreover have "parseEntries fresh ([(''id'', JStr i), (''name'', JStr n)] @ ?attrs) k = ([], k)"
      by (rule parseEntries_scalars) auto
    ultimately have "parseEntries fresh ?entries k = (map asRead cs, k)"
      by (simp add: parseEntries_append)
    then show ?thesis by (simp only: parseChildren.simps entries)
  qed
  have plain: "\<not> startsWith ?tag ''lv_''" using tag by (simp add: elementTag_def)
  have "parseItems fresh ?tag (obj # items) k
      = (LvglNode i t n (map (\<lambda>e. (fst e, PStr (valueToString (snd e)))) props) (map asRead cs)
           # fst (parseItems fresh ?tag items k),
         snd (parseItems fresh ?tag items k))"
    by (subst parseItems.simps(2))
       (simp add: Let_def object id name i n plain type [simplified] children properties
             del: parseChildren.simps)
  then show ?case
    by (simp only: tagOf element asRead.simps)
qed

subsection \<open>The document read back and written again\<close>

lemma natToString_digits: "set (natToString n) \<subseteq> set ''0123456789''"
proof (induction n rule: natToString.induct)
  case (1 n)
  have digit: "digitChar d \<in> set ''0123456789''" if "d < 10" for d
  proof -
    from that have "d \<in> {0, 1, 2, 3, 4, 5, 6, 7, 8, 9}" by auto
    then show ?thesis by (auto simp: digitChar_def)
  qed
  show ?case
  proof (cases "n < 10")
    case True
    with digit [of n] show ?thesis by (subst natToString.simps) simp
  next
    case False
    with 1 have "set (natToString (n div 10)) \<subseteq> set ''0123456789''" by simp
    moreover have "digitChar (n mod 10) \<in> set ''0123456789''" by (rule digit) simp
    ultimately show ?thesis using False by (subst natToString.simps) simp
  qed
qed

lemma valueToString_no_quote: "v \<noteq> PStr s \<Longrightarrow> (\<And>s. v \<noteq> PStr s) \<Longrightarrow> dq \<notin> set (valueToString v)"
proof (cases v)
  case (PStr x)
  assume "\<And>s. v \<noteq> PStr s"
  with PStr show ?thesis by simp
next
  case (PNum x)
  have "dq \<notin> set (natToString m)" for m
    using natToString_digits [of m] by auto
  with PNum show ?thesis by (simp add: numberToString_def)
next
  case (PBool x)
  then show ?thesis by simp
qed

lemma replaceAllChar_absent: "c \<notin> set s \<Longrightarrow> replaceAllChar c r s = s"
  by (induction s) (auto simp: replaceAllChar_def)

lemma attributeToXml_asRead:
  "attributeToXml (fst e, PStr (valueToString (snd e))) = attributeToXml e"
proof (cases "snd e")
  case (PStr s)
  then show ?thesis by (simp add: attributeToXml_def)
next
  case (PNum x)
  then have "dq \<notin> set (valueToString (snd e))" by (intro valueToString_no_quote) simp_all
  with PNum show ?thesis by (simp add: attributeToXml_def replaceAllChar_absent)
next
  case (PBool x)
  then have "dq \<notin> set (valueToString (snd e))" by (intro valueToString_no_quote) simp_all
  with PBool show ?thesis by (simp add: attributeToXml_def replaceAllChar_absent)
qed

lemma attributes_asRead:
  "concat (map (attributeToXml \<circ> (\<lambda>e. (fst e, PStr (valueToString (snd e))))) props)
     = concat (map attributeToXml props)"
  by (induction props) (simp_all add: attributeToXml_asRead)

lemma nodeToXml_asRead:
  "nodeToXml (asRead node) indent = nodeToXml node indent"
  "childrenToXml (map asRead nodes) indent = childrenToXml nodes indent"
proof (induction node indent and nodes indent rule: nodeToXml_childrenToXml.induct)
  case (1 i t n props cs indent)
  then show ?case by (simp add: Let_def attributes_asRead)
next
  case (2 indent)
  then show ?case by simp
next
  case (3 child rest indent)
  then show ?case by simp
qed

lemma nodesToXml_asRead: "nodesToXml (map asRead nodes) = nodesToXml nodes"
  by (simp add: nodesToXml_def nodeToXml_asRead)




end
